theory Spec2Isabelle
  imports Complex_Main "HOL-Library.Monad_Syntax"
begin

section \<open>Ledger store\<close>

text \<open>
  The one persisted table, as \<^verbatim>\<open>initDB\<close> creates it:
  \<^verbatim>\<open>debts(id SERIAL PRIMARY KEY, borrower_id VARCHAR(255), admin_id VARCHAR(255),
  amount_initial INTEGER, amount_remaining INTEGER, created_at TIMESTAMP,
  last_interest_at TIMESTAMP, status TEXT, note TEXT)\<close>.
  Timestamps are milliseconds since the epoch, as a JavaScript \<^verbatim>\<open>Date\<close> holds them.
  The columns \<^verbatim>\<open>id\<close> and \<^verbatim>\<open>note\<close> are called \<open>debt_id\<close> and \<open>debt_note\<close> here.
\<close>

record debt =
  debt_id :: int
  borrower_id :: string
  admin_id :: string
  amount_initial :: int
  amount_remaining :: int
  created_at :: int
  last_interest_at :: int
  status :: string
  debt_note :: string

text \<open>The table in storage order, and the sequence behind the \<^verbatim>\<open>SERIAL\<close> column.\<close>

record store =
  debts :: "debt list"
  id_seq :: int

text \<open>
  Every storage function opens its own connection (\<^verbatim>\<open>pool.connect()\<close>) and then issues
  queries on it. Either can fail. A \<open>fault\<close> says what fails during one call:
  nothing, the connection, or the query with the given index (counted from 0 in the order
  the call issues them). A failed statement leaves the table as it was.
\<close>

datatype fault = NoFault | ConnectFails | QueryFails nat

text \<open>What a handler can see thrown: by storage, or by the chat platform on a reply.\<close>

datatype error = ConnectionError | QueryError | ReplyError

definition query_fails :: "fault \<Rightarrow> nat \<Rightarrow> bool" where
  "query_fails f k = (f = QueryFails k)"

text \<open>A value that an \<^verbatim>\<open>INTEGER\<close> column accepts; the engine rejects any other.\<close>

definition pg_integer :: "int \<Rightarrow> bool" where
  "pg_integer v = (- 2147483648 \<le> v \<and> v \<le> 2147483647)"

text \<open>A value that a \<^verbatim>\<open>VARCHAR(255)\<close> column accepts.\<close>

definition pg_varchar255 :: "string \<Rightarrow> bool" where
  "pg_varchar255 v = (length v \<le> 255)"

section \<open>Interest accrual\<close>

text \<open>
  \<^verbatim>\<open>Math.ceil(newAmount * 1.05)\<close>. For an integer \<open>a\<close> in the range of an
  \<^verbatim>\<open>INTEGER\<close> column, the double-precision product \<^verbatim>\<open>a * 1.05\<close> is \<open>21 * a / 20\<close>
  itself when that is an integer (the double for 1.05 exceeds 1.05 by less than half a
  unit in the last place of the product), and otherwise lies strictly between the same
  two integers as \<open>21 * a / 20\<close> (which is at least \<open>1 / 20\<close> away from both). So the
  rounded-up result is the ceiling of the exact quotient; it is written here on integers.
\<close>

definition ceil_105 :: "int \<Rightarrow> int" where
  "ceil_105 a = - ((- (a * 21)) div 20)"

text \<open>\<^verbatim>\<open>for (let i = 0; i < weeksPassed; i++) newAmount = Math.ceil(newAmount * 1.05);\<close>\<close>

fun compound :: "nat \<Rightarrow> int \<Rightarrow> int" where
  "compound 0 newAmount = newAmount"
| "compound (Suc i) newAmount = compound i (ceil_105 newAmount)"

definition MS_PER_DAY :: int where
  "MS_PER_DAY = 1000 * 60 * 60 * 24"

text \<open>
  \<^verbatim>\<open>diffTime = Math.abs(now - lastInterest); diffDays = Math.floor(diffTime / MS_PER_DAY);
  weeksPassed = Math.floor(diffDays / 7)\<close>
\<close>

definition weeksPassed :: "int \<Rightarrow> debt \<Rightarrow> int" where
  "weeksPassed now d =
     (let diffTime = \<bar>now - last_interest_at d\<bar>;
          diffDays = diffTime div MS_PER_DAY
      in diffDays div 7)"

definition newAmount :: "int \<Rightarrow> debt \<Rightarrow> int" where
  "newAmount now d = compound (nat (weeksPassed now d)) (amount_remaining d)"

text \<open>
  \<^verbatim>\<open>newDate.setDate(newDate.getDate() + weeksPassed * 7)\<close>: calendar days in the
  process's time zone, taken to be one without clock changes (such as UTC), so that a
  day is \<open>MS_PER_DAY\<close> milliseconds and a stored timestamp reads back as written.
\<close>

definition newDate :: "int \<Rightarrow> debt \<Rightarrow> int" where
  "newDate now d = last_interest_at d + weeksPassed now d * 7 * MS_PER_DAY"

text \<open>\<^verbatim>\<open>UPDATE debts SET amount_remaining=$1, last_interest_at=$2 WHERE id=$3\<close>\<close>

definition update_interest :: "int \<Rightarrow> int \<Rightarrow> int \<Rightarrow> debt list \<Rightarrow> debt list" where
  "update_interest a t i tbl =
     map (\<lambda>r. if debt_id r = i then r\<lparr>amount_remaining := a, last_interest_at := t\<rparr> else r) tbl"

text \<open>
  The loop of \<^verbatim>\<open>applyInterest\<close> over the selected rows. \<open>k\<close> is the index of the next
  query on the connection. An \<^verbatim>\<open>UPDATE\<close> that fails throws; the \<^verbatim>\<open>catch\<close> around the
  loop logs the error, so the loop stops there and the earlier updates stay.
\<close>

fun interest_loop :: "int \<Rightarrow> fault \<Rightarrow> nat \<Rightarrow> debt list \<Rightarrow> debt list \<Rightarrow> debt list" where
  "interest_loop now f k [] tbl = tbl"
| "interest_loop now f k (d # ds) tbl =
     (if weeksPassed now d > 0 then
        (if query_fails f k \<or> \<not> pg_integer (newAmount now d) then tbl
         else interest_loop now f (Suc k) ds
                (update_interest (newAmount now d) (newDate now d) (debt_id d) tbl))
      else interest_loop now f k ds tbl)"

text \<open>
  \<^verbatim>\<open>applyInterest\<close>: \<^verbatim>\<open>pool.connect()\<close> is outside the \<^verbatim>\<open>try\<close>, so a failed
  connection is thrown to the caller; a failed query is caught inside.
  \<^verbatim>\<open>SELECT * FROM debts WHERE status='open'\<close> is query 0.
\<close>

definition applyInterest :: "int \<Rightarrow> fault \<Rightarrow> store \<Rightarrow> (error + unit) \<times> store" where
  "applyInterest now f s =
     (if f = ConnectFails then (Inl ConnectionError, s)
      else if query_fails f 0 then (Inr (), s)
      else (Inr (),
            s\<lparr>debts := interest_loop now f 1
                 (filter (\<lambda>d. status d = ''open'') (debts s)) (debts s)\<rparr>))"

section \<open>Debt creation and repayment\<close>

text \<open>
  \<^verbatim>\<open>logDebt\<close>: one \<^verbatim>\<open>INSERT ... RETURNING id\<close> (query 0) of an open debt whose initial
  and remaining amount are the amount given and whose two timestamps are the current
  time. There is no \<^verbatim>\<open>catch\<close>: a failure is thrown to the caller.
\<close>

definition logDebt ::
  "string \<Rightarrow> string \<Rightarrow> int \<Rightarrow> string \<Rightarrow> int \<Rightarrow> fault \<Rightarrow> store \<Rightarrow> (error + int) \<times> store" where
  "logDebt borrowerId adminId amt nt now f s =
     (if f = ConnectFails then (Inl ConnectionError, s)
      else if query_fails f 0 \<or> \<not> pg_integer amt
              \<or> \<not> pg_varchar255 borrowerId \<or> \<not> pg_varchar255 adminId
      then (Inl QueryError, s)
      else (Inr (id_seq s),
            s\<lparr>debts := debts s @
                 [\<lparr>debt_id = id_seq s, borrower_id = borrowerId, admin_id = adminId,
                   amount_initial = amt, amount_remaining = amt, created_at = now,
                   last_interest_at = now, status = ''open'', debt_note = nt\<rparr>],
              id_seq := id_seq s + 1\<rparr>))"

text \<open>
  The entries of \<^verbatim>\<open>logs\<close>, by what their template strings hold:
  \<^verbatim>\<open>Debt #id paid fully (amount_remaining k)\<close> and
  \<^verbatim>\<open>Debt #id reduced by remaining k (Remaining: newAmt k)\<close>.
\<close>

datatype log = PaidFully int int | Reduced int int int

text \<open>\<^verbatim>\<open>UPDATE debts SET amount_remaining=0, status='paid' WHERE id=$1\<close>\<close>

definition update_paid :: "int \<Rightarrow> debt list \<Rightarrow> debt list" where
  "update_paid i tbl =
     map (\<lambda>r. if debt_id r = i then r\<lparr>amount_remaining := 0, status := ''paid''\<rparr> else r) tbl"

text \<open>\<^verbatim>\<open>UPDATE debts SET amount_remaining=$1 WHERE id=$2\<close>\<close>

definition update_remaining :: "int \<Rightarrow> int \<Rightarrow> debt list \<Rightarrow> debt list" where
  "update_remaining a i tbl =
     map (\<lambda>r. if debt_id r = i then r\<lparr>amount_remaining := a\<rparr> else r) tbl"

text \<open>
  The loop of \<^verbatim>\<open>payDebt\<close> over the selected rows, with the payment still unallocated
  (\<open>remaining\<close>), the index \<open>k\<close> of the next query and the log so far. A failed
  \<^verbatim>\<open>UPDATE\<close> is thrown to the caller; the updates before it stay.
\<close>

fun pay_loop ::
  "fault \<Rightarrow> nat \<Rightarrow> int \<Rightarrow> debt list \<Rightarrow> debt list \<Rightarrow> log list \<Rightarrow> (error + log list) \<times> debt list" where
  "pay_loop f k remaining [] tbl logs = (Inr logs, tbl)"
| "pay_loop f k remaining (d # ds) tbl logs =
     (if remaining \<le> 0 then (Inr logs, tbl)
      else if remaining \<ge> amount_remaining d then
        (if query_fails f k then (Inl QueryError, tbl)
         else pay_loop f (Suc k) (remaining - amount_remaining d) ds
                (update_paid (debt_id d) tbl)
                (logs @ [PaidFully (debt_id d) (amount_remaining d)]))
      else
        (let newAmt = amount_remaining d - remaining in
         if query_fails f k \<or> \<not> pg_integer newAmt then (Inl QueryError, tbl)
         else pay_loop f (Suc k) 0 ds
                (update_remaining newAmt (debt_id d) tbl)
                (logs @ [Reduced (debt_id d) remaining newAmt])))"

text \<open>
  \<^verbatim>\<open>SELECT * FROM debts WHERE borrower_id=$1 AND status='open' ORDER BY created_at ASC\<close>
  (query 0). Rows with equal \<^verbatim>\<open>created_at\<close>, whose order SQL leaves open, keep their
  table order here.
\<close>

definition select_open_debts :: "string \<Rightarrow> debt list \<Rightarrow> debt list" where
  "select_open_debts borrowerId tbl =
     sort_key created_at (filter (\<lambda>d. borrower_id d = borrowerId \<and> status d = ''open'') tbl)"

definition payDebt :: "string \<Rightarrow> int \<Rightarrow> fault \<Rightarrow> store \<Rightarrow> (error + log list) \<times> store" where
  "payDebt borrowerId amt f s =
     (if f = ConnectFails then (Inl ConnectionError, s)
      else if query_fails f 0 then (Inl QueryError, s)
      else (case pay_loop f 1 amt (select_open_debts borrowerId (debts s)) (debts s) [] of
              (res, tbl) \<Rightarrow> (res, s\<lparr>debts := tbl\<rparr>)))"

section \<open>Message text\<close>

text \<open>
  Message text is a \<open>string\<close>, read as the UTF-8 form of the JavaScript string. All
  patterns of the program are ASCII, and neither \<^verbatim>\<open>toLowerCase\<close> nor the \<^verbatim>\<open>i\<close> flag
  turns another character into one of their letters, so case is handled on the ASCII
  letters only.
\<close>

definition lower_char :: "char \<Rightarrow> char" where
  "lower_char c =
     (case map_of (zip ''ABCDEFGHIJKLMNOPQRSTUVWXYZ'' ''abcdefghijklmnopqrstuvwxyz'') c of
        Some l \<Rightarrow> l | None \<Rightarrow> c)"

definition toLowerCase :: "string \<Rightarrow> string" where
  "toLowerCase s = map lower_char s"

fun startsWith :: "string \<Rightarrow> string \<Rightarrow> bool" where
  "startsWith s [] = True"
| "startsWith [] (p # ps) = False"
| "startsWith (c # cs) (p # ps) = (c = p \<and> startsWith cs ps)"

text \<open>\<^verbatim>\<open>s.includes(t)\<close>: \<open>t\<close> occurs in \<open>s\<close> as a contiguous run.\<close>

fun str_includes :: "string \<Rightarrow> string \<Rightarrow> bool" where
  "str_includes [] t = (t = [])"
| "str_includes (c # cs) t = (startsWith (c # cs) t \<or> str_includes cs t)"

definition is_digit :: "char \<Rightarrow> bool" where
  "is_digit c = (c \<in> set ''0123456789'')"

text \<open>
  \<^verbatim>\<open>\s\<close>, on the ASCII range: tab, line feed, vertical tab, form feed, carriage return
  and space. (The Unicode space separators it also accepts are outside the model.)
\<close>

definition is_space :: "char \<Rightarrow> bool" where
  "is_space c = (c \<in> set [CHR 0x09, CHR 0x0A, CHR 0x0B, CHR 0x0C, CHR 0x0D, CHR 0x20])"

definition digit_value :: "char \<Rightarrow> int" where
  "digit_value c = int (of_char c) - 48"

text \<open>
  \<^verbatim>\<open>parseInt\<close> on a run of decimal digits, which is all the program passes to it (a
  non-empty run but for one case, handled where it occurs). JavaScript numbers hold
  integers exactly below \<open>2 ^ 53\<close>; amounts are read in that range.
\<close>

definition parseInt :: "string \<Rightarrow> int" where
  "parseInt s = foldl (\<lambda>n c. 10 * n + digit_value c) 0 s"

fun toDigits :: "nat \<Rightarrow> string" where
  "toDigits n =
     (if n < 10 then [char_of (48 + n)] else toDigits (n div 10) @ [char_of (48 + n mod 10)])"

declare toDigits.simps [simp del]

text \<open>\<^verbatim>\<open>amount.toString()\<close> of an integer: its decimal digits, after a sign if negative.\<close>

definition toString :: "int \<Rightarrow> string" where
  "toString n = (if n < 0 then CHR ''-'' # toDigits (nat (- n)) else toDigits (nat n))"

subsection \<open>The trigger patterns\<close>

text \<open>
  The pieces of \<^verbatim>\<open>/^\$(verb1|verb2)\s+<@!?(\d+)>\s+(\d+)/i\<close>, each returning what is left
  of the text. Every piece is followed by a character it cannot itself match (or by the
  end of the pattern), so the greedy match is the only one and no backtracking is lost:
  the two verbs of a pattern differ within their first five letters, white space is
  followed by \<^verbatim>\<open><\<close> or a digit, the first digits by \<^verbatim>\<open>>\<close>, and the last digits end the
  pattern.
\<close>

fun strip_ci :: "string \<Rightarrow> string \<Rightarrow> string option" where
  "strip_ci [] s = Some s"
| "strip_ci (p # ps) [] = None"
| "strip_ci (p # ps) (c # cs) = (if lower_char c = p then strip_ci ps cs else None)"

fun first_verb :: "string list \<Rightarrow> string \<Rightarrow> string option" where
  "first_verb [] s = None"
| "first_verb (v # vs) s = (case strip_ci v s of Some r \<Rightarrow> Some r | None \<Rightarrow> first_verb vs s)"

definition spaces1 :: "string \<Rightarrow> string option" where
  "spaces1 s = (case s of [] \<Rightarrow> None
                | c # cs \<Rightarrow> if is_space c then Some (dropWhile is_space cs) else None)"

definition digits1 :: "string \<Rightarrow> (string \<times> string) option" where
  "digits1 s = (if takeWhile is_digit s = [] then None
                else Some (takeWhile is_digit s, dropWhile is_digit s))"

definition opt_bang :: "string \<Rightarrow> string" where
  "opt_bang s = (case s of [] \<Rightarrow> [] | c # cs \<Rightarrow> if c = CHR ''!'' then cs else c # cs)"

text \<open>The result holds groups 2 and 3: the digits of the mention and of the amount.\<close>

definition match_trigger :: "string list \<Rightarrow> string \<Rightarrow> (string \<times> string) option" where
  "match_trigger verbs str =
     do {
       r0 \<leftarrow> strip_ci ''$'' str;
       r1 \<leftarrow> first_verb verbs r0;
       r2 \<leftarrow> spaces1 r1;
       r3 \<leftarrow> strip_ci ''<@'' r2;
       (g2, r4) \<leftarrow> digits1 (opt_bang r3);
       r5 \<leftarrow> strip_ci ''>'' r4;
       r6 \<leftarrow> spaces1 r5;
       (g3, r7) \<leftarrow> digits1 r6;
       Some (g2, g3)
     }"

definition giveRegex :: "string \<Rightarrow> (string \<times> string) option" where
  "giveRegex str = match_trigger [''givescrap'', ''givekakera''] str"

definition takeRegex :: "string \<Rightarrow> (string \<times> string) option" where
  "takeRegex str = match_trigger [''kakeraremove'', ''takekakera''] str"

subsection \<open>The strict confirmation pattern\<close>

text \<open>
  \<^verbatim>\<open>.\<close> matches any character but a line terminator: line feed, carriage return, and
  U+2028 and U+2029 (in UTF-8 the bytes E2 80 A8 and E2 80 A9). \<open>first_line\<close> is the
  text before the first of them.
\<close>

fun first_line :: "string \<Rightarrow> string" where
  "first_line [] = []"
| "first_line (c # cs) =
     (if c = CHR 0x0A \<or> c = CHR 0x0D then []
      else if startsWith (c # cs) [CHR 0xE2, CHR 0x80, CHR 0xA8]
              \<or> startsWith (c # cs) [CHR 0xE2, CHR 0x80, CHR 0xA9] then []
      else c # first_line cs)"

text \<open>What follows the first occurrence of \<open>t\<close> in \<open>s\<close>, if there is one.\<close>

fun after_first :: "string \<Rightarrow> string \<Rightarrow> string option" where
  "after_first [] t = (if t = [] then Some [] else None)"
| "after_first (c # cs) t =
     (if startsWith (c # cs) t then Some (drop (length t) (c # cs)) else after_first cs t)"

text \<open>
  \<^verbatim>\<open>/^\**([\d,]+)\**.*removed.*\(added/i\<close>; the result is group 1. The leading stars and
  the group are greedy, and what follows the group can absorb any digits, commas and
  stars left over, so a match exists exactly when the longest group is followed, on the
  same line, by \<^verbatim>\<open>removed\<close> and later \<^verbatim>\<open>(added\<close>.
\<close>

definition mudaeRegex :: "string \<Rightarrow> string option" where
  "mudaeRegex str =
     (let r0 = dropWhile (\<lambda>c. c = CHR ''*'') str;
          g1 = takeWhile (\<lambda>c. is_digit c \<or> c = CHR '','') r0;
          r1 = dropWhile (\<lambda>c. is_digit c \<or> c = CHR '','') r0
      in if g1 = [] then None
         else (case after_first (toLowerCase (first_line r1)) ''removed'' of
                 None \<Rightarrow> None
               | Some r2 \<Rightarrow> if str_includes r2 ''(added'' then Some g1 else None))"

section \<open>Events, pending actions and process state\<close>

text \<open>What the handlers read of a posted message and of an added reaction.\<close>

record message =
  author_bot :: bool
  author_id :: string
  content :: string
  message_id :: string
  channel_id :: string

record reaction =
  partial :: bool
  user_id :: string
  emoji_name :: string
  reaction_message_id :: string

definition MUDAE_ID :: string where
  "MUDAE_ID = ''432610292342587392''"

text \<open>The check mark U+2705, in UTF-8.\<close>

definition CHECKMARK :: string where
  "CHECKMARK = [CHR 0xE2, CHR 0x9C, CHR 0x85]"

text \<open>
  A pending entry. The variants with two tables (\<^verbatim>\<open>pendingLoans\<close>,
  \<^verbatim>\<open>pendingRepayments\<close>) store the first four fields; the variant with one table
  (\<^verbatim>\<open>pendingActions\<close>) adds \<^verbatim>\<open>type\<close>, called \<open>action_type\<close> here.
\<close>

datatype action = LOAN | REPAY

record pending =
  adminId :: string
  userId :: string
  amount :: int
  timestamp :: int

record pending_action = pending +
  action_type :: action

text \<open>The global state: the tracking flag, the ledger, and the pending table or tables.\<close>

record core_state =
  isTrackingEnabled :: bool
  ledger :: store

record bot_state = core_state +
  pendingActions :: "string \<rightharpoonup> pending_action"

record split_state = core_state +
  pendingLoans :: "string \<rightharpoonup> pending"
  pendingRepayments :: "string \<rightharpoonup> pending"

text \<open>
  What can fail while one handler runs: resolving a partial reaction, the accrual call,
  the call that writes the ledger (\<^verbatim>\<open>logDebt\<close> or \<^verbatim>\<open>payDebt\<close>), and the reply. A
  handler runs to completion before the next event is handled, and reads the clock once
  (\<open>now\<close>).
\<close>

record faults =
  fetch_fails :: bool
  interest_fault :: fault
  ledger_fault :: fault
  reply_fails :: bool

definition no_faults :: faults where
  "no_faults = \<lparr>fetch_fails = False, interest_fault = NoFault, ledger_fault = NoFault,
                 reply_fails = False\<rparr>"

text \<open>
  The statements that confirm a loan: accrual, the new debt, the reply. The result says
  whether one of them threw, and gives the ledger as they left it.
\<close>

definition loan_block ::
  "faults \<Rightarrow> int \<Rightarrow> string \<Rightarrow> string \<Rightarrow> int \<Rightarrow> string \<Rightarrow> store \<Rightarrow> (error + unit) \<times> store" where
  "loan_block fl now uid aid amt nt db =
     (case applyInterest now (interest_fault fl) db of
        (Inl e, db1) \<Rightarrow> (Inl e, db1)
      | (Inr u, db1) \<Rightarrow>
          (case logDebt uid aid amt nt now (ledger_fault fl) db1 of
             (Inl e, db2) \<Rightarrow> (Inl e, db2)
           | (Inr debtId, db2) \<Rightarrow>
               if reply_fails fl then (Inl ReplyError, db2) else (Inr (), db2)))"

text \<open>The statements that confirm a repayment: accrual, the allocation, the reply.\<close>

definition repay_block ::
  "faults \<Rightarrow> int \<Rightarrow> string \<Rightarrow> int \<Rightarrow> store \<Rightarrow> (error + unit) \<times> store" where
  "repay_block fl now uid amt db =
     (case applyInterest now (interest_fault fl) db of
        (Inl e, db1) \<Rightarrow> (Inl e, db1)
      | (Inr u, db1) \<Rightarrow>
          (case payDebt uid amt (ledger_fault fl) db1 of
             (Inl e, db2) \<Rightarrow> (Inl e, db2)
           | (Inr logs, db2) \<Rightarrow>
               if reply_fails fl then (Inl ReplyError, db2) else (Inr (), db2)))"

section \<open>The variant with one pending table (index.js)\<close>

text \<open>
  Listener 1, \<^verbatim>\<open>messageCreate\<close>: an administrator's trigger is stored under the
  message's identity. Nothing here touches storage.
\<close>

definition onMessageCreate :: "string list \<Rightarrow> int \<Rightarrow> message \<Rightarrow> bot_state \<Rightarrow> bot_state" where
  "onMessageCreate ADMIN_IDS now msg s =
     (if author_bot msg then s
      else if author_id msg \<notin> set ADMIN_IDS then s
      else if \<not> isTrackingEnabled s then s
      else if str_includes (toLowerCase (content msg)) ''#exempt'' then s
      else (case giveRegex (content msg) of
              Some (g2, g3) \<Rightarrow>
                s\<lparr>pendingActions := (pendingActions s)(message_id msg \<mapsto>
                     \<lparr>adminId = author_id msg, userId = g2, amount = parseInt g3,
                      timestamp = now, action_type = LOAN\<rparr>)\<rparr>
            | None \<Rightarrow>
                (case takeRegex (content msg) of
                   Some (g2, g3) \<Rightarrow>
                     s\<lparr>pendingActions := (pendingActions s)(message_id msg \<mapsto>
                          \<lparr>adminId = author_id msg, userId = g2, amount = parseInt g3,
                           timestamp = now, action_type = REPAY\<rparr>)\<rparr>
                 | None \<Rightarrow> s)))"

text \<open>
  Listener 2, \<^verbatim>\<open>messageReactionAdd\<close>: the \<^verbatim>\<open>try\<close> block applies the action, the
  \<^verbatim>\<open>catch\<close> logs whatever it threw, and the \<^verbatim>\<open>finally\<close> deletes the entry.
\<close>

definition onMessageReactionAdd :: "faults \<Rightarrow> int \<Rightarrow> reaction \<Rightarrow> bot_state \<Rightarrow> bot_state" where
  "onMessageReactionAdd fl now r s =
     (if partial r \<and> fetch_fails fl then s
      else if user_id r \<noteq> MUDAE_ID then s
      else if emoji_name r \<noteq> CHECKMARK \<and> emoji_name r \<noteq> ''white_check_mark'' then s
      else if \<not> isTrackingEnabled s then s
      else (case pendingActions s (reaction_message_id r) of
              None \<Rightarrow> s
            | Some a \<Rightarrow>
                (let (res, db) =
                       (case action_type a of
                          LOAN \<Rightarrow> loan_block fl now (userId a) (adminId a) (amount a)
                                    ''Verified by Mudae'' (ledger s)
                        | REPAY \<Rightarrow> repay_block fl now (userId a) (amount a) (ledger s))
                 in s\<lparr>ledger := db,
                      pendingActions := (pendingActions s)(reaction_message_id r := None)\<rparr>)))"

section \<open>The variants with two pending tables\<close>

text \<open>
  Listener 1 of both variants: a loan trigger is stored under the message's identity, a
  repayment trigger under the channel's. The exemption mark is matched as written (no
  lower-casing).
\<close>

definition onAdminMessage :: "string list \<Rightarrow> int \<Rightarrow> message \<Rightarrow> split_state \<Rightarrow> split_state" where
  "onAdminMessage ADMIN_IDS now msg s =
     (if author_bot msg then s
      else if author_id msg \<in> set ADMIN_IDS then
        (if \<not> isTrackingEnabled s then s
         else if str_includes (content msg) ''#exempt'' then s
         else (case giveRegex (content msg) of
                 Some (g2, g3) \<Rightarrow>
                   s\<lparr>pendingLoans := (pendingLoans s)(message_id msg \<mapsto>
                        \<lparr>adminId = author_id msg, userId = g2, amount = parseInt g3,
                         timestamp = now\<rparr>)\<rparr>
               | None \<Rightarrow>
                   (case takeRegex (content msg) of
                      Some (g2, g3) \<Rightarrow>
                        s\<lparr>pendingRepayments := (pendingRepayments s)(channel_id msg \<mapsto>
                             \<lparr>adminId = author_id msg, userId = g2, amount = parseInt g3,
                              timestamp = now\<rparr>)\<rparr>
                    | None \<Rightarrow> s)))
      else s)"

text \<open>
  Listener 2, loose parsing: the lower-cased text has to include the pending amount's
  digits and the word \<^verbatim>\<open>removed\<close>. The tracking flag is not read.
\<close>

definition onMudaeMessage_loose :: "faults \<Rightarrow> int \<Rightarrow> message \<Rightarrow> split_state \<Rightarrow> split_state" where
  "onMudaeMessage_loose fl now msg s =
     (if author_id msg \<noteq> MUDAE_ID then s
      else (case pendingRepayments s (channel_id msg) of
              None \<Rightarrow> s
            | Some p \<Rightarrow>
                (let hasAmount = str_includes (toLowerCase (content msg)) (toString (amount p));
                     hasKeyword = str_includes (toLowerCase (content msg)) ''removed''
                 in if hasAmount \<and> hasKeyword then
                      (let (res, db) = repay_block fl now (userId p) (amount p) (ledger s)
                       in s\<lparr>ledger := db,
                            pendingRepayments := (pendingRepayments s)(channel_id msg := None)\<rparr>)
                    else s)))"

text \<open>
  Listener 2, strict parsing: the text has to match \<open>mudaeRegex\<close> and its number, commas
  removed, has to be the pending amount (\<^verbatim>\<open>parseInt\<close> of no digits is \<^verbatim>\<open>NaN\<close>, equal to
  nothing). There is no \<^verbatim>\<open>try\<close>: what is thrown leaves the handler before the entry is
  deleted.
\<close>

definition onMudaeMessage_strict :: "faults \<Rightarrow> int \<Rightarrow> message \<Rightarrow> split_state \<Rightarrow> split_state" where
  "onMudaeMessage_strict fl now msg s =
     (if author_id msg \<noteq> MUDAE_ID then s
      else if \<not> isTrackingEnabled s then s
      else (case pendingRepayments s (channel_id msg) of
              None \<Rightarrow> s
            | Some p \<Rightarrow>
                (case mudaeRegex (content msg) of
                   None \<Rightarrow> s
                 | Some g1 \<Rightarrow>
                     (let ds = filter (\<lambda>c. c \<noteq> CHR '','') g1
                      in if ds \<noteq> [] \<and> parseInt ds = amount p then
                           (case repay_block fl now (userId p) (amount p) (ledger s) of
                              (Inl e, db) \<Rightarrow> s\<lparr>ledger := db\<rparr>
                            | (Inr u, db) \<Rightarrow>
                                s\<lparr>ledger := db,
                                  pendingRepayments :=
                                    (pendingRepayments s)(channel_id msg := None)\<rparr>)
                         else s))))"

text \<open>Listener 3 of both variants, \<^verbatim>\<open>messageReactionAdd\<close>: loans only.\<close>

definition onLoanReaction :: "faults \<Rightarrow> int \<Rightarrow> reaction \<Rightarrow> split_state \<Rightarrow> split_state" where
  "onLoanReaction fl now r s =
     (if partial r \<and> fetch_fails fl then s
      else if user_id r \<noteq> MUDAE_ID then s
      else if \<not> isTrackingEnabled s then s
      else if emoji_name r \<noteq> CHECKMARK \<and> emoji_name r \<noteq> ''white_check_mark'' then s
      else (case pendingLoans s (reaction_message_id r) of
              None \<Rightarrow> s
            | Some a \<Rightarrow>
                (let (res, db) = loan_block fl now (userId a) (adminId a) (amount a)
                                   ''Verified by Mudae'' (ledger s)
                 in s\<lparr>ledger := db,
                      pendingLoans := (pendingLoans s)(reaction_message_id r := None)\<rparr>)))"

section \<open>The variant without a pending table\<close>

text \<open>
  Its only \<^verbatim>\<open>messageCreate\<close> listener applies a trigger to the ledger at once. It has
  no tracking flag and no \<^verbatim>\<open>try\<close>; the state is the ledger.
\<close>

definition onMessageCreate_immediate :: "string list \<Rightarrow> faults \<Rightarrow> int \<Rightarrow> message \<Rightarrow> store \<Rightarrow> store" where
  "onMessageCreate_immediate adminIds fl now msg db =
     (if author_bot msg \<or> author_id msg \<notin> set adminIds then db
      else if str_includes (toLowerCase (content msg)) ''#exempt'' then db
      else (case giveRegex (content msg) of
              Some (g2, g3) \<Rightarrow>
                snd (loan_block fl now g2 (author_id msg) (parseInt g3) ''Auto-detected'' db)
            | None \<Rightarrow>
                (case takeRegex (content msg) of
                   Some (g2, g3) \<Rightarrow> snd (repay_block fl now g2 (parseInt g3) db)
                 | None \<Rightarrow> db)))"

section \<open>Row-wise view of accrual\<close>

text \<open>
  Notions used in the proofs only. \<open>apply_row now d r\<close> is what one step of the
  accrual loop, for the selected row \<open>d\<close>, does to a table row \<open>r\<close>; \<open>accrue_row now r\<close>
  is what a whole pass does to \<open>r\<close> when every update is written.
\<close>

definition apply_row :: "int \<Rightarrow> debt \<Rightarrow> debt \<Rightarrow> debt" where
  "apply_row now d r =
     (if 0 < weeksPassed now d \<and> debt_id r = debt_id d
      then r\<lparr>amount_remaining := newAmount now d, last_interest_at := newDate now d\<rparr> else r)"

definition accrue_row :: "int \<Rightarrow> debt \<Rightarrow> debt" where
  "accrue_row now r =
     (if status r = ''open'' \<and> 0 < weeksPassed now r
      then r\<lparr>amount_remaining := newAmount now r, last_interest_at := newDate now r\<rparr> else r)"

text \<open>What the first \<^verbatim>\<open>UPDATE\<close> of \<^verbatim>\<open>payDebt\<close> does to the row it names.\<close>

definition paid_row :: "debt \<Rightarrow> debt" where
  "paid_row r = r\<lparr>amount_remaining := 0, status := ''paid''\<rparr>"

section \<open>Accrual: proofs\<close>

text \<open>The integer form of the weekly step is the ceiling of the exact product.\<close>

lemma ceil_105_real: "ceil_105 a = \<lceil>real_of_int a * 1.05\<rceil>"
proof -
  have "\<lceil>real_of_int a * 1.05\<rceil> = \<lceil>real_of_int (a * 21) / real_of_int 20\<rceil>" by simp
  also have "\<dots> = - \<lfloor>real_of_int (- (a * 21)) / real_of_int 20\<rfloor>" by (simp add: ceiling_def)
  also have "\<dots> = - ((- (a * 21)) div 20)" by (simp only: floor_divide_of_int_eq)
  finally show ?thesis by (simp add: ceil_105_def)
qed

lemma interest_loop_map:
  "\<forall>d\<in>set ds. 0 < weeksPassed now d \<longrightarrow> pg_integer (newAmount now d) \<Longrightarrow>
   interest_loop now NoFault k ds tbl = map (fold (apply_row now) ds) tbl"
proof (induction ds arbitrary: k tbl)
  case Nil
  then show ?case by simp
next
  case (Cons d ds)
  have step: "update_interest (newAmount now d) (newDate now d) (debt_id d) tbl = map (apply_row now d) tbl"
    if "0 < weeksPassed now d"
    using that by (simp add: update_interest_def apply_row_def)
  show ?case
  proof (cases "0 < weeksPassed now d")
    case True
    with Cons.prems have ok: "pg_integer (newAmount now d)" by simp
    from Cons.prems have rest: "\<forall>d\<in>set ds. 0 < weeksPassed now d \<longrightarrow> pg_integer (newAmount now d)" by simp
    show ?thesis using True ok Cons.IH[OF rest] step[OF True]
      by (simp add: query_fails_def comp_def)
  next
    case False
    from Cons.prems have rest: "\<forall>d\<in>set ds. 0 < weeksPassed now d \<longrightarrow> pg_integer (newAmount now d)" by simp
    have "fold (apply_row now) (d # ds) r = fold (apply_row now) ds r" for r
      using False by (simp add: apply_row_def)
    then show ?thesis using False Cons.IH[OF rest] by simp
  qed
qed

lemma apply_row_id: "debt_id (apply_row now d r) = debt_id r"
  by (simp add: apply_row_def)

lemma fold_apply_row_other:
  "debt_id r \<notin> debt_id ` set ds \<Longrightarrow> fold (apply_row now) ds r = r"
  by (induction ds arbitrary: r) (auto simp: apply_row_def)

lemma fold_apply_row_member:
  "distinct (map debt_id ds) \<Longrightarrow> r \<in> set ds \<Longrightarrow>
   fold (apply_row now) ds r = apply_row now r r"
proof (induction ds)
  case Nil
  then show ?case by simp
next
  case (Cons d ds)
  show ?case
  proof (cases "r = d")
    case True
    have "debt_id (apply_row now d d) \<notin> debt_id ` set ds"
      using Cons.prems(1) by (simp add: apply_row_id)
    then show ?thesis using True by (simp add: fold_apply_row_other)
  next
    case False
    with Cons.prems have mem: "r \<in> set ds" by simp
    from Cons.prems(1) have "debt_id d \<notin> debt_id ` set ds" by simp
    with mem have "debt_id r \<noteq> debt_id d" by (metis imageI)
    then have "apply_row now d r = r" by (simp add: apply_row_def)
    then show ?thesis using Cons.IH mem Cons.prems(1) by simp
  qed
qed

lemma fold_apply_row_open:
  assumes "distinct (map debt_id tbl)" "r \<in> set tbl"
  shows "fold (apply_row now) (filter (\<lambda>d. status d = ''open'') tbl) r = accrue_row now r"
proof (cases "status r = ''open''")
  case True
  then have "r \<in> set (filter (\<lambda>d. status d = ''open'') tbl)" using assms(2) by simp
  moreover have "distinct (map debt_id (filter (\<lambda>d. status d = ''open'') tbl))"
    using assms(1) by (simp add: distinct_map_filter)
  ultimately show ?thesis using True
    by (simp add: fold_apply_row_member apply_row_def accrue_row_def)
next
  case False
  have "debt_id r \<notin> debt_id ` set (filter (\<lambda>d. status d = ''open'') tbl)"
  proof
    assume "debt_id r \<in> debt_id ` set (filter (\<lambda>d. status d = ''open'') tbl)"
    then obtain d where d: "d \<in> set tbl" "status d = ''open''" "debt_id d = debt_id r" by auto
    from assms(1) have "inj_on debt_id (set tbl)" by (simp add: distinct_map)
    with d assms(2) have "d = r" by (auto dest: inj_onD)
    with d False show False by simp
  qed
  then show ?thesis using False by (simp add: fold_apply_row_other accrue_row_def)
qed

lemma applyInterest_map:
  assumes "distinct (map debt_id (debts s))"
    and "\<forall>d\<in>set (debts s). status d = ''open'' \<longrightarrow> 0 < weeksPassed now d \<longrightarrow> pg_integer (newAmount now d)"
  shows "applyInterest now NoFault s = (Inr (), s\<lparr>debts := map (accrue_row now) (debts s)\<rparr>)"
proof -
  have "interest_loop now NoFault 1 (filter (\<lambda>d. status d = ''open'') (debts s)) (debts s)
      = map (fold (apply_row now) (filter (\<lambda>d. status d = ''open'') (debts s))) (debts s)"
    using assms(2) by (intro interest_loop_map) simp
  also have "\<dots> = map (accrue_row now) (debts s)"
    using assms(1) by (intro map_cong refl fold_apply_row_open)
  finally show ?thesis by (simp add: applyInterest_def query_fails_def)
qed


lemma interest_loop_cut:
  "\<exists>ds' ds''. ds = ds' @ ds'' \<and> interest_loop now f k ds tbl = map (fold (apply_row now) ds') tbl"
proof (induction ds arbitrary: k tbl)
  case Nil
  then show ?case by simp
next
  case (Cons d ds)
  show ?case
  proof (cases "0 < weeksPassed now d")
    case True
    show ?thesis
    proof (cases "query_fails f k \<or> \<not> pg_integer (newAmount now d)")
      case True
      have "d # ds = [] @ (d # ds) \<and> interest_loop now f k (d # ds) tbl = map (fold (apply_row now) []) tbl"
        using True \<open>0 < weeksPassed now d\<close> by simp
      then show ?thesis by blast
    next
      case False
      from Cons.IH[of "Suc k" "update_interest (newAmount now d) (newDate now d) (debt_id d) tbl"]
      obtain ds' ds'' where cut: "ds = ds' @ ds''"
        and eq: "interest_loop now f (Suc k) ds (update_interest (newAmount now d) (newDate now d) (debt_id d) tbl)
                 = map (fold (apply_row now) ds') (update_interest (newAmount now d) (newDate now d) (debt_id d) tbl)"
        by blast
      have "update_interest (newAmount now d) (newDate now d) (debt_id d) tbl = map (apply_row now d) tbl"
        using True by (simp add: update_interest_def apply_row_def)
      with eq False True
      have "d # ds = (d # ds') @ ds'' \<and> interest_loop now f k (d # ds) tbl = map (fold (apply_row now) (d # ds')) tbl"
        using cut by (simp add: comp_def)
      then show ?thesis by blast
    qed
  next
    case False
    from Cons.IH[of k tbl] obtain ds' ds'' where cut: "ds = ds' @ ds''"
      and eq: "interest_loop now f k ds tbl = map (fold (apply_row now) ds') tbl" by blast
    have "fold (apply_row now) (d # ds') r = fold (apply_row now) ds' r" for r
      using False by (simp add: apply_row_def)
    with eq False cut
    have "d # ds = (d # ds') @ ds'' \<and> interest_loop now f k (d # ds) tbl = map (fold (apply_row now) (d # ds')) tbl"
      by simp
    then show ?thesis by blast
  qed
qed

lemma fold_apply_row_cases:
  assumes "distinct (map debt_id tbl)" "r \<in> set tbl"
    and "filter (\<lambda>d. status d = ''open'') tbl = ds' @ ds''"
  shows "fold (apply_row now) ds' r = r \<or> fold (apply_row now) ds' r = accrue_row now r"
proof (cases "r \<in> set ds'")
  case True
  have sub: "set ds' \<subseteq> set (filter (\<lambda>d. status d = ''open'') tbl)" using assms(3) by simp
  have "distinct (map debt_id (filter (\<lambda>d. status d = ''open'') tbl))"
    using assms(1) by (simp add: distinct_map_filter)
  then have "distinct (map debt_id ds')" using assms(3) by simp
  moreover have "status r = ''open''" using True sub by auto
  ultimately show ?thesis using True
    by (simp add: fold_apply_row_member apply_row_def accrue_row_def)
next
  case False
  have sub: "set ds' \<subseteq> set tbl"
  proof -
    have "set ds' \<subseteq> set (filter (\<lambda>d. status d = ''open'') tbl)" using assms(3) by simp
    then show ?thesis by auto
  qed
  have "debt_id r \<notin> debt_id ` set ds'"
  proof
    assume "debt_id r \<in> debt_id ` set ds'"
    then obtain d where d: "d \<in> set ds'" "debt_id d = debt_id r" by auto
    from assms(1) have "inj_on debt_id (set tbl)" by (simp add: distinct_map)
    with d sub assms(2) have "d = r" by (auto dest: inj_onD)
    with d False show False by simp
  qed
  then show ?thesis by (simp add: fold_apply_row_other)
qed

lemma applyInterest_rows:
  assumes "distinct (map debt_id (debts s))"
  shows "\<exists>g. debts (snd (applyInterest now f s)) = map g (debts s) \<and>
             (\<forall>r\<in>set (debts s). g r = r \<or> g r = accrue_row now r)"
proof (cases "f = ConnectFails \<or> query_fails f 0")
  case True
  then have "debts (snd (applyInterest now f s)) = map (\<lambda>r. r) (debts s)"
    by (auto simp: applyInterest_def)
  then show ?thesis by blast
next
  case False
  obtain ds' ds'' where cut: "filter (\<lambda>d. status d = ''open'') (debts s) = ds' @ ds''"
    and eq: "interest_loop now f 1 (filter (\<lambda>d. status d = ''open'') (debts s)) (debts s)
             = map (fold (apply_row now) ds') (debts s)"
    using interest_loop_cut by blast
  have "debts (snd (applyInterest now f s)) = map (fold (apply_row now) ds') (debts s)"
    using False eq by (simp add: applyInterest_def)
  moreover have "\<forall>r\<in>set (debts s). fold (apply_row now) ds' r = r \<or> fold (apply_row now) ds' r = accrue_row now r"
    using fold_apply_row_cases[OF assms _ cut] by blast
  ultimately show ?thesis by blast
qed

lemma weeksPassed_nonneg: "0 \<le> weeksPassed now d"
  by (simp add: weeksPassed_def MS_PER_DAY_def Let_def pos_imp_zdiv_nonneg_iff)

lemma ceil_105_ge: "0 \<le> a \<Longrightarrow> a \<le> ceil_105 a"
  unfolding ceil_105_def by linarith

lemma compound_ge: "0 \<le> a \<Longrightarrow> a \<le> compound n a"
proof (induction n arbitrary: a)
  case 0
  then show ?case by simp
next
  case (Suc n)
  from Suc.prems have "a \<le> ceil_105 a" by (rule ceil_105_ge)
  moreover from this Suc.prems have "ceil_105 a \<le> compound n (ceil_105 a)"
    by (intro Suc.IH) simp
  ultimately show ?case by simp
qed

lemma accrue_row_last: "last_interest_at r \<le> last_interest_at (accrue_row now r)"
  using weeksPassed_nonneg[of now r] by (simp add: accrue_row_def newDate_def MS_PER_DAY_def)

lemma accrue_row_amount:
  "0 \<le> amount_remaining r \<Longrightarrow> amount_remaining r \<le> amount_remaining (accrue_row now r)"
  by (simp add: accrue_row_def newAmount_def compound_ge)

lemma interest_loop_idle:
  "\<forall>d\<in>set ds. \<not> 0 < weeksPassed now d \<Longrightarrow> interest_loop now f k ds tbl = tbl"
  by (induction ds arbitrary: k) simp_all

lemma applyInterest_idle:
  assumes "\<forall>d\<in>set (debts s). status d = ''open'' \<longrightarrow> \<not> 0 < weeksPassed now d"
  shows "snd (applyInterest now f s) = s"
proof -
  have "interest_loop now f 1 (filter (\<lambda>d. status d = ''open'') (debts s)) (debts s) = debts s"
    using assms by (intro interest_loop_idle) simp
  then show ?thesis by (simp add: applyInterest_def)
qed

lemma weeksPassed_within:
  "\<bar>now - last_interest_at d\<bar> < 7 * MS_PER_DAY \<Longrightarrow> weeksPassed now d = 0"
  unfolding weeksPassed_def MS_PER_DAY_def Let_def by simp

lemma weeksPassed_forward:
  "last_interest_at d \<le> now \<Longrightarrow> weeksPassed now d = (now - last_interest_at d) div (7 * MS_PER_DAY)"
  unfolding weeksPassed_def MS_PER_DAY_def Let_def by (simp add: zdiv_zmult2_eq)

lemma accrue_row_settled:
  assumes "status r = ''open''"
    and "last_interest_at r \<le> now" "now \<le> now'" "weeksPassed now' r = weeksPassed now r"
  shows "weeksPassed now' (accrue_row now r) = 0"
proof (cases "0 < weeksPassed now r")
  case True
  let ?x = "now' - last_interest_at r"
  let ?W = "7 * MS_PER_DAY"
  have w: "weeksPassed now r = ?x div ?W"
    using assms weeksPassed_forward[of r now'] by simp
  have Wpos: "0 < ?W" by (simp add: MS_PER_DAY_def)
  have l: "last_interest_at (accrue_row now r) = last_interest_at r + (?x div ?W) * ?W"
    using True assms(1) by (simp add: accrue_row_def newDate_def w)
  have "(?x div ?W) * ?W + ?x mod ?W = ?x" by (rule div_mult_mod_eq)
  then have "now' - last_interest_at (accrue_row now r) = ?x mod ?W"
    unfolding l by linarith
  moreover have "0 \<le> ?x mod ?W" "?x mod ?W < ?W" using Wpos by simp_all
  ultimately have "\<bar>now' - last_interest_at (accrue_row now r)\<bar> < ?W" by simp
  then show ?thesis by (rule weeksPassed_within)
next
  case False
  then have "accrue_row now r = r" by (simp add: accrue_row_def)
  moreover have "weeksPassed now r = 0"
    using False weeksPassed_nonneg[of now r] by simp
  ultimately show ?thesis using assms by simp
qed

lemma applyInterest_nth:
  assumes "distinct (map debt_id (debts s))" "i < length (debts s)"
  shows "length (debts (snd (applyInterest now f s))) = length (debts s) \<and>
         (debts (snd (applyInterest now f s)) ! i = debts s ! i \<or>
          debts (snd (applyInterest now f s)) ! i = accrue_row now (debts s ! i))"
proof -
  obtain g where g: "debts (snd (applyInterest now f s)) = map g (debts s)"
    "\<forall>r\<in>set (debts s). g r = r \<or> g r = accrue_row now r"
    using applyInterest_rows[OF assms(1)] by blast
  have "debts s ! i \<in> set (debts s)" using assms(2) by simp
  with g(2) have "g (debts s ! i) = debts s ! i \<or> g (debts s ! i) = accrue_row now (debts s ! i)"
    by blast
  then show ?thesis using g(1) assms(2) by simp
qed

text \<open>
  \<^bold>\<open>C3\<close>. A debt with 1000 remaining, two whole weeks after its last accrual (at least
  14 and less than 21 days): the pass takes the amount through \<open>1000\<close>, \<open>1050\<close>, \<open>1103\<close>
  and moves \<open>last_interest_at\<close> forward by 14 days exactly, whatever part of a third
  week has passed. The table has unique ids (the primary key), no query fails, and no
  open debt's new amount leaves the \<^verbatim>\<open>INTEGER\<close> range (an update that does ends the pass).
\<close>

theorem accrual_two_weeks:
  assumes "distinct (map debt_id (debts s))"
    and "i < length (debts s)" and "debts s ! i = d"
    and "status d = ''open''" and "amount_remaining d = 1000"
    and "14 * MS_PER_DAY \<le> now - last_interest_at d"
    and "now - last_interest_at d < 21 * MS_PER_DAY"
    and "\<forall>e\<in>set (debts s). status e = ''open'' \<longrightarrow> 0 < weeksPassed now e
           \<longrightarrow> pg_integer (newAmount now e)"
  shows "compound 1 1000 = 1050 \<and> compound 2 1000 = 1103 \<and>
         debts (snd (applyInterest now NoFault s)) ! i =
           d\<lparr>amount_remaining := 1103,
             last_interest_at := last_interest_at d + 14 * MS_PER_DAY\<rparr>"
proof -
  have c1: "compound 1 1000 = 1050" by (simp add: ceil_105_def)
  have c2: "compound 2 1000 = 1103" by (simp add: numeral_2_eq_2 ceil_105_def)
  have w: "weeksPassed now d = 2"
    using assms(6,7) unfolding weeksPassed_def MS_PER_DAY_def Let_def by simp
  have row: "accrue_row now d =
      d\<lparr>amount_remaining := 1103, last_interest_at := last_interest_at d + 14 * MS_PER_DAY\<rparr>"
    using assms(4,5) w c2 by (simp add: accrue_row_def newAmount_def newDate_def)
  have "applyInterest now NoFault s = (Inr (), s\<lparr>debts := map (accrue_row now) (debts s)\<rparr>)"
    using assms(1,8) by (rule applyInterest_map)
  then have "debts (snd (applyInterest now NoFault s)) ! i = accrue_row now (debts s ! i)"
    using assms(2) by simp
  with row assms(3) c1 c2 show ?thesis by simp
qed

theorem accrual_two_weeks_witness:
  "debts (snd (applyInterest 1468800000 NoFault
     \<lparr>debts = [\<lparr>debt_id = 1, borrower_id = ''7'', admin_id = ''9'', amount_initial = 900,
                 amount_remaining = 1000, created_at = 0, last_interest_at = 0,
                 status = ''open'', debt_note = ''Verified by Mudae''\<rparr>], id_seq = 2\<rparr>)) ! 0
   = \<lparr>debt_id = 1, borrower_id = ''7'', admin_id = ''9'', amount_initial = 900,
       amount_remaining = 1103, created_at = 0, last_interest_at = 1209600000,
       status = ''open'', debt_note = ''Verified by Mudae''\<rparr>"
proof -
  let ?d = "\<lparr>debt_id = 1, borrower_id = ''7'', admin_id = ''9'', amount_initial = 900,
                 amount_remaining = 1000, created_at = 0, last_interest_at = 0,
                 status = ''open'', debt_note = ''Verified by Mudae''\<rparr>"
  let ?s = "\<lparr>debts = [?d], id_seq = 2\<rparr>"
  have w: "weeksPassed 1468800000 ?d = 2"
    by (simp add: weeksPassed_def MS_PER_DAY_def)
  have ok: "\<forall>e\<in>set (debts ?s). status e = ''open'' \<longrightarrow> 0 < weeksPassed 1468800000 e
           \<longrightarrow> pg_integer (newAmount 1468800000 e)"
    using w by (simp add: newAmount_def numeral_2_eq_2 ceil_105_def pg_integer_def)
  show ?thesis
    using accrual_two_weeks[of ?s 0 ?d 1468800000, OF _ _ _ _ _ _ _ ok]
    by (simp add: MS_PER_DAY_def)
qed

text \<open>One debt at a time: a pass leaves alone a row that is not due, and a row it has
  brought up to date is not due again within the same elapsed week.\<close>

lemma accrue_row_not_due:
  "status r \<noteq> ''open'' \<or> \<bar>now - last_interest_at r\<bar> < 7 * MS_PER_DAY \<Longrightarrow> accrue_row now r = r"
  by (auto simp: accrue_row_def weeksPassed_within)

lemma applyInterest_row_not_due:
  assumes "distinct (map debt_id (debts s))" "i < length (debts s)"
    and "status (debts s ! i) \<noteq> ''open''
         \<or> \<bar>now - last_interest_at (debts s ! i)\<bar> < 7 * MS_PER_DAY"
  shows "debts (snd (applyInterest now f s)) ! i = debts s ! i"
  using applyInterest_nth[OF assms(1,2), of now f] accrue_row_not_due[OF assms(3)] by auto

lemma applyInterest_row_settled:
  assumes dist: "distinct (map debt_id (debts s))" and i: "i < length (debts s)"
    and op: "status (debts s ! i) = ''open''"
    and t: "last_interest_at (debts s ! i) \<le> now" "now \<le> now'"
    and w: "weeksPassed now' (debts s ! i) = weeksPassed now (debts s ! i)"
    and ok: "\<forall>d\<in>set (debts s). status d = ''open'' \<longrightarrow> 0 < weeksPassed now d
               \<longrightarrow> pg_integer (newAmount now d)"
  shows "debts (snd (applyInterest now' f' (snd (applyInterest now NoFault s)))) ! i
         = debts (snd (applyInterest now NoFault s)) ! i"
proof -
  let ?s1 = "s\<lparr>debts := map (accrue_row now) (debts s)\<rparr>"
  have first: "snd (applyInterest now NoFault s) = ?s1"
    using applyInterest_map[OF dist ok] by simp
  have ids: "map debt_id (map (accrue_row now) (debts s)) = map debt_id (debts s)"
    by (simp add: accrue_row_def)
  have "debts ?s1 = map (accrue_row now) (debts s)" by simp
  then have "map debt_id (debts ?s1) = map debt_id (debts s)" using ids by (simp only:)
  then have dist1: "distinct (map debt_id (debts ?s1))" using dist by (simp only:)
  have i1: "i < length (debts ?s1)" using i by simp
  have row: "debts ?s1 ! i = accrue_row now (debts s ! i)" using i by simp
  have "weeksPassed now' (accrue_row now (debts s ! i)) = 0"
    using op t w by (rule accrue_row_settled)
  then have idle: "accrue_row now' (debts ?s1 ! i) = debts ?s1 ! i"
    unfolding row by (simp add: accrue_row_def)
  from applyInterest_nth[OF dist1 i1, of now' f'] idle
  have "debts (snd (applyInterest now' f' ?s1)) ! i = debts ?s1 ! i" by auto
  then show ?thesis unfolding first .
qed

text \<open>The same for a whole table, with the bounds that hold at any time.\<close>

lemma accrual_whole_table:
  "((\<forall>d\<in>set (debts s). status d = ''open'' \<longrightarrow> \<bar>now - last_interest_at d\<bar> < 7 * MS_PER_DAY)
      \<longrightarrow> snd (applyInterest now f s) = s)
   \<and> (distinct (map debt_id (debts s)) \<longrightarrow>
        length (debts (snd (applyInterest now f s))) = length (debts s) \<and>
        (\<forall>i<length (debts s).
           last_interest_at (debts s ! i)
             \<le> last_interest_at (debts (snd (applyInterest now f s)) ! i) \<and>
           (0 \<le> amount_remaining (debts s ! i) \<longrightarrow>
              amount_remaining (debts s ! i)
                \<le> amount_remaining (debts (snd (applyInterest now f s)) ! i))))
   \<and> (distinct (map debt_id (debts s)) \<and> now \<le> now' \<and>
       (\<forall>d\<in>set (debts s). status d = ''open'' \<longrightarrow>
           last_interest_at d \<le> now \<and> weeksPassed now' d = weeksPassed now d \<and>
           (0 < weeksPassed now d \<longrightarrow> pg_integer (newAmount now d)))
      \<longrightarrow> snd (applyInterest now' f' (snd (applyInterest now NoFault s)))
            = snd (applyInterest now NoFault s))"
proof (intro conjI impI)
  assume "\<forall>d\<in>set (debts s). status d = ''open'' \<longrightarrow> \<bar>now - last_interest_at d\<bar> < 7 * MS_PER_DAY"
  then have "\<forall>d\<in>set (debts s). status d = ''open'' \<longrightarrow> \<not> 0 < weeksPassed now d"
    by (simp add: weeksPassed_within)
  then show "snd (applyInterest now f s) = s" by (rule applyInterest_idle)
next
  assume "distinct (map debt_id (debts s))"
  then show "length (debts (snd (applyInterest now f s))) = length (debts s)"
    using applyInterest_rows[of s now f] by auto
next
  assume dist: "distinct (map debt_id (debts s))"
  show "\<forall>i<length (debts s).
           last_interest_at (debts s ! i)
             \<le> last_interest_at (debts (snd (applyInterest now f s)) ! i) \<and>
           (0 \<le> amount_remaining (debts s ! i) \<longrightarrow>
              amount_remaining (debts s ! i)
                \<le> amount_remaining (debts (snd (applyInterest now f s)) ! i))"
  proof (intro allI impI)
    fix i assume i: "i < length (debts s)"
    from applyInterest_nth[OF dist i, of now f]
    have "debts (snd (applyInterest now f s)) ! i = debts s ! i \<or>
          debts (snd (applyInterest now f s)) ! i = accrue_row now (debts s ! i)" by simp
    then show "last_interest_at (debts s ! i)
             \<le> last_interest_at (debts (snd (applyInterest now f s)) ! i) \<and>
           (0 \<le> amount_remaining (debts s ! i) \<longrightarrow>
              amount_remaining (debts s ! i)
                \<le> amount_remaining (debts (snd (applyInterest now f s)) ! i))"
      using accrue_row_last[of "debts s ! i" now] accrue_row_amount[of "debts s ! i" now]
      by auto
  qed
next
  assume h: "distinct (map debt_id (debts s)) \<and> now \<le> now' \<and>
       (\<forall>d\<in>set (debts s). status d = ''open'' \<longrightarrow>
           last_interest_at d \<le> now \<and> weeksPassed now' d = weeksPassed now d \<and>
           (0 < weeksPassed now d \<longrightarrow> pg_integer (newAmount now d)))"
  then have first: "applyInterest now NoFault s = (Inr (), s\<lparr>debts := map (accrue_row now) (debts s)\<rparr>)"
    by (intro applyInterest_map) auto
  have st: "status (accrue_row now r) = status r" for r
    by (simp add: accrue_row_def)
  have "\<forall>d\<in>set (debts (s\<lparr>debts := map (accrue_row now) (debts s)\<rparr>)).
          status d = ''open'' \<longrightarrow> \<not> 0 < weeksPassed now' d"
  proof
    fix d assume "d \<in> set (debts (s\<lparr>debts := map (accrue_row now) (debts s)\<rparr>))"
    then obtain r where r: "r \<in> set (debts s)" "d = accrue_row now r" by auto
    show "status d = ''open'' \<longrightarrow> \<not> 0 < weeksPassed now' d"
    proof
      assume "status d = ''open''"
      with r st have op: "status r = ''open''" by simp
      with h r(1) have "last_interest_at r \<le> now" "weeksPassed now' r = weeksPassed now r" by auto
      with op h have "weeksPassed now' (accrue_row now r) = 0"
        by (intro accrue_row_settled) auto
      with r(2) show "\<not> 0 < weeksPassed now' d" by simp
    qed
  qed
  then have "snd (applyInterest now' f' (s\<lparr>debts := map (accrue_row now) (debts s)\<rparr>))
             = s\<lparr>debts := map (accrue_row now) (debts s)\<rparr>"
    by (rule applyInterest_idle)
  with first show "snd (applyInterest now' f' (snd (applyInterest now NoFault s)))
            = snd (applyInterest now NoFault s)" by simp
qed

text \<open>
  \<^bold>\<open>C4\<close>, as the code has it, debt by debt. (1) A pass leaves a debt as it is when the
  debt is not open or its last accrual is less than a week away from the current time,
  in either direction: whatever fails, and whether or not other debts are due. (2) After
  a pass, at a time not before an open debt's last accrual, that wrote all its updates, a
  second pass within that debt's same elapsed week leaves the debt as the first pass left
  it. (3) When no open debt is due, the store is unchanged. (4) At any current time, also
  one a week or more before the last accrual, and whatever fails, no \<open>last_interest_at\<close>
  moves backward and no non-negative amount decreases. (5) When (2) holds of every open
  debt, the second pass leaves the store unchanged.
\<close>

theorem accrual_noop_within_week:
  "(distinct (map debt_id (debts s)) \<and> i < length (debts s)
      \<and> (status (debts s ! i) \<noteq> ''open''
           \<or> \<bar>now - last_interest_at (debts s ! i)\<bar> < 7 * MS_PER_DAY)
     \<longrightarrow> debts (snd (applyInterest now f s)) ! i = debts s ! i)
   \<and> (distinct (map debt_id (debts s)) \<and> i < length (debts s)
      \<and> status (debts s ! i) = ''open''
      \<and> last_interest_at (debts s ! i) \<le> now \<and> now \<le> now'
      \<and> weeksPassed now' (debts s ! i) = weeksPassed now (debts s ! i)
      \<and> (\<forall>d\<in>set (debts s). status d = ''open'' \<longrightarrow> 0 < weeksPassed now d
             \<longrightarrow> pg_integer (newAmount now d))
     \<longrightarrow> debts (snd (applyInterest now' f' (snd (applyInterest now NoFault s)))) ! i
         = debts (snd (applyInterest now NoFault s)) ! i)
   \<and> ((\<forall>d\<in>set (debts s). status d = ''open'' \<longrightarrow> \<bar>now - last_interest_at d\<bar> < 7 * MS_PER_DAY)
      \<longrightarrow> snd (applyInterest now f s) = s)
   \<and> (distinct (map debt_id (debts s)) \<longrightarrow>
        length (debts (snd (applyInterest now f s))) = length (debts s) \<and>
        (\<forall>j<length (debts s).
           last_interest_at (debts s ! j)
             \<le> last_interest_at (debts (snd (applyInterest now f s)) ! j) \<and>
           (0 \<le> amount_remaining (debts s ! j) \<longrightarrow>
              amount_remaining (debts s ! j)
                \<le> amount_remaining (debts (snd (applyInterest now f s)) ! j))))
   \<and> (distinct (map debt_id (debts s)) \<and> now \<le> now' \<and>
       (\<forall>d\<in>set (debts s). status d = ''open'' \<longrightarrow>
           last_interest_at d \<le> now \<and> weeksPassed now' d = weeksPassed now d \<and>
           (0 < weeksPassed now d \<longrightarrow> pg_integer (newAmount now d)))
      \<longrightarrow> snd (applyInterest now' f' (snd (applyInterest now NoFault s)))
            = snd (applyInterest now NoFault s))"
proof -
  have row1: "distinct (map debt_id (debts s)) \<and> i < length (debts s)
      \<and> (status (debts s ! i) \<noteq> ''open''
           \<or> \<bar>now - last_interest_at (debts s ! i)\<bar> < 7 * MS_PER_DAY)
     \<longrightarrow> debts (snd (applyInterest now f s)) ! i = debts s ! i"
    using applyInterest_row_not_due[of s i now f] by blast
  have row2: "distinct (map debt_id (debts s)) \<and> i < length (debts s)
      \<and> status (debts s ! i) = ''open''
      \<and> last_interest_at (debts s ! i) \<le> now \<and> now \<le> now'
      \<and> weeksPassed now' (debts s ! i) = weeksPassed now (debts s ! i)
      \<and> (\<forall>d\<in>set (debts s). status d = ''open'' \<longrightarrow> 0 < weeksPassed now d
             \<longrightarrow> pg_integer (newAmount now d))
     \<longrightarrow> debts (snd (applyInterest now' f' (snd (applyInterest now NoFault s)))) ! i
         = debts (snd (applyInterest now NoFault s)) ! i"
    using applyInterest_row_settled[of s i now now' f'] by blast
  show ?thesis by (rule conjI[OF row1 conjI[OF row2 accrual_whole_table]])
qed

theorem accrual_noop_within_week_witness:
  "debts (snd (applyInterest 691200000 NoFault
      \<lparr>debts = [\<lparr>debt_id = 1, borrower_id = ''7'', admin_id = ''9'', amount_initial = 1000,
                  amount_remaining = 1000, created_at = 0, last_interest_at = 0,
                  status = ''open'', debt_note = ''''\<rparr>,
                \<lparr>debt_id = 2, borrower_id = ''8'', admin_id = ''9'', amount_initial = 200,
                  amount_remaining = 200, created_at = 690600000,
                  last_interest_at = 690600000, status = ''open'', debt_note = ''''\<rparr>],
        id_seq = 3\<rparr>)) ! 1
    = \<lparr>debt_id = 2, borrower_id = ''8'', admin_id = ''9'', amount_initial = 200,
        amount_remaining = 200, created_at = 690600000,
        last_interest_at = 690600000, status = ''open'', debt_note = ''''\<rparr>
   \<and> debts (snd (applyInterest 777600000 (QueryFails 1) (snd (applyInterest 691200000 NoFault
      \<lparr>debts = [\<lparr>debt_id = 1, borrower_id = ''7'', admin_id = ''9'', amount_initial = 1000,
                  amount_remaining = 1000, created_at = 0, last_interest_at = 0,
                  status = ''open'', debt_note = ''''\<rparr>,
                \<lparr>debt_id = 2, borrower_id = ''8'', admin_id = ''9'', amount_initial = 200,
                  amount_remaining = 200, created_at = 690600000,
                  last_interest_at = 690600000, status = ''open'', debt_note = ''''\<rparr>],
        id_seq = 3\<rparr>)))) ! 0
    = debts (snd (applyInterest 691200000 NoFault
      \<lparr>debts = [\<lparr>debt_id = 1, borrower_id = ''7'', admin_id = ''9'', amount_initial = 1000,
                  amount_remaining = 1000, created_at = 0, last_interest_at = 0,
                  status = ''open'', debt_note = ''''\<rparr>,
                \<lparr>debt_id = 2, borrower_id = ''8'', admin_id = ''9'', amount_initial = 200,
                  amount_remaining = 200, created_at = 690600000,
                  last_interest_at = 690600000, status = ''open'', debt_note = ''''\<rparr>],
        id_seq = 3\<rparr>)) ! 0
   \<and> applyInterest 691200000 NoFault
      \<lparr>debts = [\<lparr>debt_id = 1, borrower_id = ''7'', admin_id = ''9'', amount_initial = 1000,
                  amount_remaining = 1000, created_at = 0, last_interest_at = 0,
                  status = ''open'', debt_note = ''''\<rparr>,
                \<lparr>debt_id = 2, borrower_id = ''8'', admin_id = ''9'', amount_initial = 200,
                  amount_remaining = 200, created_at = 690600000,
                  last_interest_at = 690600000, status = ''open'', debt_note = ''''\<rparr>],
        id_seq = 3\<rparr>
    = (Inr (),
       \<lparr>debts = [\<lparr>debt_id = 1, borrower_id = ''7'', admin_id = ''9'', amount_initial = 1000,
                  amount_remaining = 1050, created_at = 0, last_interest_at = 604800000,
                  status = ''open'', debt_note = ''''\<rparr>,
                \<lparr>debt_id = 2, borrower_id = ''8'', admin_id = ''9'', amount_initial = 200,
                  amount_remaining = 200, created_at = 690600000,
                  last_interest_at = 690600000, status = ''open'', debt_note = ''''\<rparr>],
        id_seq = 3\<rparr>)
   \<and> snd (applyInterest 0 (QueryFails 1)
      \<lparr>debts = [\<lparr>debt_id = 1, borrower_id = ''7'', admin_id = ''9'', amount_initial = 1000,
                  amount_remaining = 1000, created_at = 0, last_interest_at = 100000,
                  status = ''open'', debt_note = ''''\<rparr>], id_seq = 2\<rparr>)
    = \<lparr>debts = [\<lparr>debt_id = 1, borrower_id = ''7'', admin_id = ''9'', amount_initial = 1000,
                  amount_remaining = 1000, created_at = 0, last_interest_at = 100000,
                  status = ''open'', debt_note = ''''\<rparr>], id_seq = 2\<rparr>
   \<and> snd (applyInterest 777600000 NoFault (snd (applyInterest 691200000 NoFault
      \<lparr>debts = [\<lparr>debt_id = 1, borrower_id = ''7'', admin_id = ''9'', amount_initial = 1000,
                  amount_remaining = 1000, created_at = 0, last_interest_at = 0,
                  status = ''open'', debt_note = ''''\<rparr>], id_seq = 2\<rparr>)))
    = snd (applyInterest 691200000 NoFault
      \<lparr>debts = [\<lparr>debt_id = 1, borrower_id = ''7'', admin_id = ''9'', amount_initial = 1000,
                  amount_remaining = 1000, created_at = 0, last_interest_at = 0,
                  status = ''open'', debt_note = ''''\<rparr>], id_seq = 2\<rparr>)"
proof -
  let ?A = "\<lparr>debt_id = 1, borrower_id = ''7'', admin_id = ''9'', amount_initial = 1000,
             amount_remaining = 1000, created_at = 0, last_interest_at = 0,
             status = ''open'', debt_note = ''''\<rparr>"
  let ?B = "\<lparr>debt_id = 2, borrower_id = ''8'', admin_id = ''9'', amount_initial = 200,
             amount_remaining = 200, created_at = 690600000,
             last_interest_at = 690600000, status = ''open'', debt_note = ''''\<rparr>"
  let ?s2 = "\<lparr>debts = [?A, ?B], id_seq = 3\<rparr>"
  let ?a = "\<lparr>debt_id = 1, borrower_id = ''7'', admin_id = ''9'', amount_initial = 1000,
             amount_remaining = 1000, created_at = 0, last_interest_at = 100000,
             status = ''open'', debt_note = ''''\<rparr>"
  have wA: "weeksPassed 691200000 ?A = 1" and wA': "weeksPassed 777600000 ?A = 1"
    and wB: "weeksPassed 691200000 ?B = 0"
    by (simp_all add: weeksPassed_def MS_PER_DAY_def)
  have h1: "distinct (map debt_id (debts ?s2)) \<and> 1 < length (debts ?s2)
      \<and> (status (debts ?s2 ! 1) \<noteq> ''open''
           \<or> \<bar>691200000 - last_interest_at (debts ?s2 ! 1)\<bar> < 7 * MS_PER_DAY)"
    by (simp add: MS_PER_DAY_def)
  have h2: "distinct (map debt_id (debts ?s2)) \<and> 0 < length (debts ?s2)
      \<and> status (debts ?s2 ! 0) = ''open''
      \<and> last_interest_at (debts ?s2 ! 0) \<le> 691200000 \<and> (691200000::int) \<le> 777600000
      \<and> weeksPassed 777600000 (debts ?s2 ! 0) = weeksPassed 691200000 (debts ?s2 ! 0)
      \<and> (\<forall>d\<in>set (debts ?s2). status d = ''open'' \<longrightarrow> 0 < weeksPassed 691200000 d
             \<longrightarrow> pg_integer (newAmount 691200000 d))"
    using wA wA' wB by (simp add: newAmount_def ceil_105_def pg_integer_def)
  have near: "\<forall>d\<in>set (debts \<lparr>debts = [?a], id_seq = 2\<rparr>).
                status d = ''open'' \<longrightarrow> \<bar>0 - last_interest_at d\<bar> < 7 * MS_PER_DAY"
    by (simp add: MS_PER_DAY_def)
  have twice: "distinct (map debt_id (debts \<lparr>debts = [?A], id_seq = 2\<rparr>)) \<and>
      (691200000::int) \<le> 777600000 \<and>
      (\<forall>d\<in>set (debts \<lparr>debts = [?A], id_seq = 2\<rparr>). status d = ''open'' \<longrightarrow>
           last_interest_at d \<le> 691200000 \<and>
           weeksPassed 777600000 d = weeksPassed 691200000 d \<and>
           (0 < weeksPassed 691200000 d \<longrightarrow> pg_integer (newAmount 691200000 d)))"
    using wA wA' by (simp add: newAmount_def ceil_105_def pg_integer_def)
  have c1: "debts (snd (applyInterest 691200000 NoFault ?s2)) ! 1 = debts ?s2 ! 1"
    using accrual_noop_within_week[where s = ?s2 and i = 1 and now = 691200000
        and f = NoFault] h1 by blast
  have c2: "debts (snd (applyInterest 777600000 (QueryFails 1)
                     (snd (applyInterest 691200000 NoFault ?s2)))) ! 0
            = debts (snd (applyInterest 691200000 NoFault ?s2)) ! 0"
    using accrual_noop_within_week[where s = ?s2 and i = 0 and now = 691200000
        and now' = 777600000 and f' = "QueryFails 1"] h2 by blast
  have c3: "applyInterest 691200000 NoFault ?s2
      = (Inr (), \<lparr>debts = [?A\<lparr>amount_remaining := 1050, last_interest_at := 604800000\<rparr>, ?B],
                  id_seq = 3\<rparr>)"
    using wA wB
    by (simp add: applyInterest_def query_fails_def newAmount_def newDate_def
        update_interest_def pg_integer_def ceil_105_def MS_PER_DAY_def)
  have c4: "snd (applyInterest 0 (QueryFails 1) \<lparr>debts = [?a], id_seq = 2\<rparr>)
            = \<lparr>debts = [?a], id_seq = 2\<rparr>"
    using accrual_noop_within_week[where s = "\<lparr>debts = [?a], id_seq = 2\<rparr>" and now = 0
        and f = "QueryFails 1"] near by blast
  have c5: "snd (applyInterest 777600000 NoFault
                   (snd (applyInterest 691200000 NoFault \<lparr>debts = [?A], id_seq = 2\<rparr>)))
            = snd (applyInterest 691200000 NoFault \<lparr>debts = [?A], id_seq = 2\<rparr>)"
    using accrual_noop_within_week[where s = "\<lparr>debts = [?A], id_seq = 2\<rparr>"
        and now = 691200000 and now' = 777600000 and f' = NoFault] twice by blast
  from c1 have c1': "debts (snd (applyInterest 691200000 NoFault ?s2)) ! 1 = ?B" by simp
  from c3 have c3': "applyInterest 691200000 NoFault ?s2
      = (Inr (), \<lparr>debts = [\<lparr>debt_id = 1, borrower_id = ''7'', admin_id = ''9'',
                              amount_initial = 1000, amount_remaining = 1050, created_at = 0,
                              last_interest_at = 604800000, status = ''open'',
                              debt_note = ''''\<rparr>, ?B], id_seq = 3\<rparr>)" by simp
  from c1' c2 c3' c4 c5 show ?thesis by (intro conjI)
qed

text \<open>
  The claim as stated fails when the current time is a week or more before the last
  accrual: the pass takes the absolute value of the difference. Here the clock reads 0
  and the last accrual is at day 8; the elapsed time is negative, yet the pass charges
  a week and moves the date to day 15, and a second pass at the same time charges two
  more weeks.
\<close>

theorem accrual_negative_elapsed_counterexample:
  "status \<lparr>debt_id = 1, borrower_id = ''7'', admin_id = ''9'', amount_initial = 1000,
            amount_remaining = 1000, created_at = 0, last_interest_at = 691200000,
            status = ''open'', debt_note = ''''\<rparr> = ''open''
   \<and> 0 - last_interest_at \<lparr>debt_id = 1, borrower_id = ''7'', admin_id = ''9'',
            amount_initial = 1000, amount_remaining = 1000, created_at = 0,
            last_interest_at = 691200000, status = ''open'', debt_note = ''''\<rparr> < 7 * MS_PER_DAY
   \<and> applyInterest 0 NoFault
        \<lparr>debts = [\<lparr>debt_id = 1, borrower_id = ''7'', admin_id = ''9'', amount_initial = 1000,
                    amount_remaining = 1000, created_at = 0, last_interest_at = 691200000,
                    status = ''open'', debt_note = ''''\<rparr>], id_seq = 2\<rparr>
      = (Inr (),
         \<lparr>debts = [\<lparr>debt_id = 1, borrower_id = ''7'', admin_id = ''9'', amount_initial = 1000,
                    amount_remaining = 1050, created_at = 0, last_interest_at = 1296000000,
                    status = ''open'', debt_note = ''''\<rparr>], id_seq = 2\<rparr>)
   \<and> applyInterest 0 NoFault
        \<lparr>debts = [\<lparr>debt_id = 1, borrower_id = ''7'', admin_id = ''9'', amount_initial = 1000,
                    amount_remaining = 1050, created_at = 0, last_interest_at = 1296000000,
                    status = ''open'', debt_note = ''''\<rparr>], id_seq = 2\<rparr>
      = (Inr (),
         \<lparr>debts = [\<lparr>debt_id = 1, borrower_id = ''7'', admin_id = ''9'', amount_initial = 1000,
                    amount_remaining = 1159, created_at = 0, last_interest_at = 2505600000,
                    status = ''open'', debt_note = ''''\<rparr>], id_seq = 2\<rparr>)"
  by (simp add: applyInterest_def query_fails_def weeksPassed_def MS_PER_DAY_def newAmount_def
      newDate_def update_interest_def pg_integer_def ceil_105_def numeral_2_eq_2)

section \<open>Repayment: proofs\<close>

lemma sum_insort_key:
  fixes f :: "'a \<Rightarrow> int"
  shows "sum_list (map f (insort_key g x xs)) = f x + sum_list (map f xs)"
  by (induction xs) simp_all

lemma sum_sort_key:
  fixes f :: "'a \<Rightarrow> int"
  shows "sum_list (map f (sort_key g xs)) = sum_list (map f xs)"
  by (induction xs) (simp_all add: sum_insort_key)

lemma update_paid_map: "update_paid i tbl = map (\<lambda>r. if debt_id r = i then paid_row r else r) tbl"
  by (simp add: update_paid_def paid_row_def)

lemma fold_update_paid:
  "fold (\<lambda>d. update_paid (debt_id d)) ds tbl
     = map (\<lambda>r. if debt_id r \<in> debt_id ` set ds then paid_row r else r) tbl"
proof (induction ds arbitrary: tbl)
  case Nil
  then show ?case by simp
next
  case (Cons d ds)
  have "fold (\<lambda>d. update_paid (debt_id d)) (d # ds) tbl
        = map (\<lambda>r. if debt_id r \<in> debt_id ` set ds then paid_row r else r) (update_paid (debt_id d) tbl)"
    using Cons.IH by simp
  also have "\<dots> = map (\<lambda>r. if debt_id r \<in> debt_id ` set (d # ds) then paid_row r else r) tbl"
    by (simp add: update_paid_map paid_row_def)
  finally show ?case .
qed

lemma pay_loop_all_paid:
  assumes "\<forall>d\<in>set ds. 0 \<le> amount_remaining d"
    and "sum_list (map amount_remaining ds) < remaining"
  shows "pay_loop NoFault k remaining ds tbl logs
         = (Inr (logs @ map (\<lambda>d. PaidFully (debt_id d) (amount_remaining d)) ds),
            fold (\<lambda>d. update_paid (debt_id d)) ds tbl)"
  using assms
proof (induction ds arbitrary: k remaining tbl logs)
  case Nil
  then show ?case by simp
next
  case (Cons d ds)
  have rest: "0 \<le> sum_list (map amount_remaining ds)"
    using Cons.prems(1) by (intro sum_list_nonneg) auto
  have d0: "0 \<le> amount_remaining d" using Cons.prems(1) by simp
  from Cons.prems(2) rest d0 have pos: "\<not> remaining \<le> 0" and cover: "amount_remaining d \<le> remaining"
    by simp_all
  have next_ok: "sum_list (map amount_remaining ds) < remaining - amount_remaining d"
    using Cons.prems(2) by simp
  have "\<forall>d\<in>set ds. 0 \<le> amount_remaining d" using Cons.prems(1) by simp
  from Cons.IH[OF this next_ok] pos cover show ?case
    by (simp add: query_fails_def)
qed

lemma selected_ids:
  assumes "distinct (map debt_id tbl)" "r \<in> set tbl"
  shows "debt_id r \<in> debt_id ` set (select_open_debts b tbl)
         \<longleftrightarrow> borrower_id r = b \<and> status r = ''open''"
proof
  assume "debt_id r \<in> debt_id ` set (select_open_debts b tbl)"
  then obtain d where d: "d \<in> set tbl" "borrower_id d = b" "status d = ''open''" "debt_id d = debt_id r"
    by (auto simp: select_open_debts_def)
  from assms(1) have "inj_on debt_id (set tbl)" by (simp add: distinct_map)
  with d assms(2) have "d = r" by (auto dest: inj_onD)
  with d show "borrower_id r = b \<and> status r = ''open''" by simp
next
  assume "borrower_id r = b \<and> status r = ''open''"
  with assms(2) have "r \<in> set (select_open_debts b tbl)" by (simp add: select_open_debts_def)
  then show "debt_id r \<in> debt_id ` set (select_open_debts b tbl)" by (rule imageI)
qed

lemma payDebt_overpay:
  assumes "distinct (map debt_id (debts s))"
    and "\<forall>d\<in>set (debts s). borrower_id d = b \<and> status d = ''open'' \<longrightarrow> 0 \<le> amount_remaining d"
    and "(\<Sum>d\<leftarrow>filter (\<lambda>d. borrower_id d = b \<and> status d = ''open'') (debts s). amount_remaining d) < amt"
  shows "payDebt b amt NoFault s
     = (Inr (map (\<lambda>d. PaidFully (debt_id d) (amount_remaining d)) (select_open_debts b (debts s))),
        s\<lparr>debts := map (\<lambda>r. if borrower_id r = b \<and> status r = ''open''
                            then r\<lparr>amount_remaining := 0, status := ''paid''\<rparr> else r) (debts s)\<rparr>)"
proof -
  let ?ds = "select_open_debts b (debts s)"
  have nonneg: "\<forall>d\<in>set ?ds. 0 \<le> amount_remaining d"
    using assms(2) by (simp add: select_open_debts_def)
  have total: "sum_list (map amount_remaining ?ds) < amt"
    using assms(3) by (simp add: select_open_debts_def sum_sort_key)
  have "pay_loop NoFault 1 amt ?ds (debts s) []
        = (Inr (map (\<lambda>d. PaidFully (debt_id d) (amount_remaining d)) ?ds),
           fold (\<lambda>d. update_paid (debt_id d)) ?ds (debts s))"
    using pay_loop_all_paid[OF nonneg total, of 1 "debts s" "[]"] by simp
  moreover have "fold (\<lambda>d. update_paid (debt_id d)) ?ds (debts s)
        = map (\<lambda>r. if borrower_id r = b \<and> status r = ''open''
                            then r\<lparr>amount_remaining := 0, status := ''paid''\<rparr> else r) (debts s)"
    unfolding fold_update_paid
    by (rule map_cong) (simp_all add: selected_ids[OF assms(1)] paid_row_def)
  ultimately show ?thesis by (simp add: payDebt_def query_fails_def)
qed

lemma id_eq_iff:
  assumes "distinct (map debt_id tbl)" "r \<in> set tbl" "a \<in> set tbl"
  shows "debt_id r = debt_id a \<longleftrightarrow> r = a"
proof -
  from assms(1) have "inj_on debt_id (set tbl)" by (simp add: distinct_map)
  with assms(2,3) show ?thesis by (auto dest: inj_onD)
qed

text \<open>
  \<^bold>\<open>C5\<close>. A borrower whose open debts are exactly \<open>A\<close> (500 remaining) and \<open>B\<close> (800
  remaining, created later), in either table order, pays 700: \<open>A\<close> is set to 0 and
  \<^verbatim>\<open>paid\<close>, \<open>B\<close> is reduced to 600 and stays open, every other row is as it was, and
  the log lists \<open>A\<close> paid in full (500) and then \<open>B\<close> reduced by 200 to 600.
\<close>

theorem payDebt_fifo_two_debts:
  assumes "distinct (map debt_id (debts s))"
    and "filter (\<lambda>d. borrower_id d = b \<and> status d = ''open'') (debts s) = [A, B]
         \<or> filter (\<lambda>d. borrower_id d = b \<and> status d = ''open'') (debts s) = [B, A]"
    and "amount_remaining A = 500" and "amount_remaining B = 800"
    and "created_at A < created_at B"
  shows "payDebt b 700 NoFault s
     = (Inr [PaidFully (debt_id A) 500, Reduced (debt_id B) 200 600],
        s\<lparr>debts := map (\<lambda>r. if r = A then A\<lparr>amount_remaining := 0, status := ''paid''\<rparr>
                            else if r = B then B\<lparr>amount_remaining := 600\<rparr> else r) (debts s)\<rparr>)"
proof -
  have sel: "select_open_debts b (debts s) = [A, B]"
    using assms(2,5) by (auto simp: select_open_debts_def)
  have "A \<in> set (filter (\<lambda>d. borrower_id d = b \<and> status d = ''open'') (debts s))
      \<and> B \<in> set (filter (\<lambda>d. borrower_id d = b \<and> status d = ''open'') (debts s))"
    using assms(2)
  proof
    assume e: "filter (\<lambda>d. borrower_id d = b \<and> status d = ''open'') (debts s) = [A, B]"
    show ?thesis unfolding e by simp
  next
    assume e: "filter (\<lambda>d. borrower_id d = b \<and> status d = ''open'') (debts s) = [B, A]"
    show ?thesis unfolding e by simp
  qed
  then have mem: "A \<in> set (debts s)" "B \<in> set (debts s)" by simp_all
  have loop: "pay_loop NoFault 1 700 [A, B] (debts s) []
      = (Inr [PaidFully (debt_id A) 500, Reduced (debt_id B) 200 600],
         update_remaining 600 (debt_id B) (update_paid (debt_id A) (debts s)))"
    using assms(3,4) by (simp add: query_fails_def pg_integer_def)
  have ne: "A \<noteq> B" using assms(5) by auto
  have "update_remaining 600 (debt_id B) (update_paid (debt_id A) (debts s))
      = map (\<lambda>r. if r = A then A\<lparr>amount_remaining := 0, status := ''paid''\<rparr>
                  else if r = B then B\<lparr>amount_remaining := 600\<rparr> else r) (debts s)"
    unfolding update_remaining_def update_paid_def map_map
  proof (rule map_cong[OF refl])
    fix r assume r: "r \<in> set (debts s)"
    have a: "debt_id r = debt_id A \<longleftrightarrow> r = A" using id_eq_iff[OF assms(1) r mem(1)] .
    have b: "debt_id r = debt_id B \<longleftrightarrow> r = B" using id_eq_iff[OF assms(1) r mem(2)] .
    show "((\<lambda>r. if debt_id r = debt_id B then r\<lparr>amount_remaining := 600\<rparr> else r) \<circ>
           (\<lambda>r. if debt_id r = debt_id A then r\<lparr>amount_remaining := 0, status := ''paid''\<rparr> else r)) r
          = (if r = A then A\<lparr>amount_remaining := 0, status := ''paid''\<rparr>
             else if r = B then B\<lparr>amount_remaining := 600\<rparr> else r)"
      using a b ne by auto
  qed
  with loop sel show ?thesis by (simp add: payDebt_def query_fails_def)
qed

theorem payDebt_fifo_two_debts_witness:
  "payDebt ''7'' 700 NoFault
     \<lparr>debts = [\<lparr>debt_id = 4, borrower_id = ''7'', admin_id = ''9'', amount_initial = 800,
                 amount_remaining = 800, created_at = 2000, last_interest_at = 2000,
                 status = ''open'', debt_note = ''''\<rparr>,
               \<lparr>debt_id = 5, borrower_id = ''8'', admin_id = ''9'', amount_initial = 50,
                 amount_remaining = 50, created_at = 500, last_interest_at = 500,
                 status = ''open'', debt_note = ''''\<rparr>,
               \<lparr>debt_id = 6, borrower_id = ''7'', admin_id = ''9'', amount_initial = 450,
                 amount_remaining = 500, created_at = 1000, last_interest_at = 1000,
                 status = ''open'', debt_note = ''''\<rparr>], id_seq = 7\<rparr>
   = (Inr [PaidFully 6 500, Reduced 4 200 600],
     \<lparr>debts = [\<lparr>debt_id = 4, borrower_id = ''7'', admin_id = ''9'', amount_initial = 800,
                 amount_remaining = 600, created_at = 2000, last_interest_at = 2000,
                 status = ''open'', debt_note = ''''\<rparr>,
               \<lparr>debt_id = 5, borrower_id = ''8'', admin_id = ''9'', amount_initial = 50,
                 amount_remaining = 50, created_at = 500, last_interest_at = 500,
                 status = ''open'', debt_note = ''''\<rparr>,
               \<lparr>debt_id = 6, borrower_id = ''7'', admin_id = ''9'', amount_initial = 450,
                 amount_remaining = 0, created_at = 1000, last_interest_at = 1000,
                 status = ''paid'', debt_note = ''''\<rparr>], id_seq = 7\<rparr>)"
proof -
  let ?B = "\<lparr>debt_id = 4, borrower_id = ''7'', admin_id = ''9'', amount_initial = 800,
                 amount_remaining = 800, created_at = 2000, last_interest_at = 2000,
                 status = ''open'', debt_note = ''''\<rparr>"
  let ?C = "\<lparr>debt_id = 5, borrower_id = ''8'', admin_id = ''9'', amount_initial = 50,
                 amount_remaining = 50, created_at = 500, last_interest_at = 500,
                 status = ''open'', debt_note = ''''\<rparr>"
  let ?A = "\<lparr>debt_id = 6, borrower_id = ''7'', admin_id = ''9'', amount_initial = 450,
                 amount_remaining = 500, created_at = 1000, last_interest_at = 1000,
                 status = ''open'', debt_note = ''''\<rparr>"
  let ?s = "\<lparr>debts = [?B, ?C, ?A], id_seq = 7\<rparr>"
  have two: "filter (\<lambda>d. borrower_id d = ''7'' \<and> status d = ''open'') (debts ?s) = [?A, ?B]
         \<or> filter (\<lambda>d. borrower_id d = ''7'' \<and> status d = ''open'') (debts ?s) = [?B, ?A]"
    by simp
  show ?thesis
    using payDebt_fifo_two_debts[of ?s "''7''" ?A ?B, OF _ two] by simp
qed

text \<open>
  \<^bold>\<open>C6\<close>. A payment greater than the sum of what a borrower's open debts have remaining
  (none of them negative) sets each of them to 0 and \<^verbatim>\<open>paid\<close>, oldest first in the log,
  and changes nothing else. The result does not depend on the excess: every such
  payment returns the same log and leaves the same store.
\<close>

theorem payDebt_overpayment_discarded:
  assumes "distinct (map debt_id (debts s))"
    and "\<forall>d\<in>set (debts s). borrower_id d = b \<and> status d = ''open'' \<longrightarrow> 0 \<le> amount_remaining d"
    and "(\<Sum>d\<leftarrow>filter (\<lambda>d. borrower_id d = b \<and> status d = ''open'') (debts s).
            amount_remaining d) < amt"
  shows "payDebt b amt NoFault s
     = (Inr (map (\<lambda>d. PaidFully (debt_id d) (amount_remaining d)) (select_open_debts b (debts s))),
        s\<lparr>debts := map (\<lambda>r. if borrower_id r = b \<and> status r = ''open''
                            then r\<lparr>amount_remaining := 0, status := ''paid''\<rparr> else r) (debts s)\<rparr>)
    \<and> (\<forall>amt'. (\<Sum>d\<leftarrow>filter (\<lambda>d. borrower_id d = b \<and> status d = ''open'') (debts s).
                  amount_remaining d) < amt'
          \<longrightarrow> payDebt b amt' NoFault s = payDebt b amt NoFault s)"
  using payDebt_overpay[OF assms(1,2)] assms(3) by simp

theorem payDebt_overpayment_discarded_witness:
  "payDebt ''7'' 5000 NoFault
     \<lparr>debts = [\<lparr>debt_id = 4, borrower_id = ''7'', admin_id = ''9'', amount_initial = 800,
                 amount_remaining = 800, created_at = 2000, last_interest_at = 2000,
                 status = ''open'', debt_note = ''''\<rparr>,
               \<lparr>debt_id = 5, borrower_id = ''8'', admin_id = ''9'', amount_initial = 50,
                 amount_remaining = 50, created_at = 500, last_interest_at = 500,
                 status = ''open'', debt_note = ''''\<rparr>,
               \<lparr>debt_id = 6, borrower_id = ''7'', admin_id = ''9'', amount_initial = 450,
                 amount_remaining = 500, created_at = 1000, last_interest_at = 1000,
                 status = ''open'', debt_note = ''''\<rparr>], id_seq = 7\<rparr>
   = (Inr [PaidFully 6 500, PaidFully 4 800],
     \<lparr>debts = [\<lparr>debt_id = 4, borrower_id = ''7'', admin_id = ''9'', amount_initial = 800,
                 amount_remaining = 0, created_at = 2000, last_interest_at = 2000,
                 status = ''paid'', debt_note = ''''\<rparr>,
               \<lparr>debt_id = 5, borrower_id = ''8'', admin_id = ''9'', amount_initial = 50,
                 amount_remaining = 50, created_at = 500, last_interest_at = 500,
                 status = ''open'', debt_note = ''''\<rparr>,
               \<lparr>debt_id = 6, borrower_id = ''7'', admin_id = ''9'', amount_initial = 450,
                 amount_remaining = 0, created_at = 1000, last_interest_at = 1000,
                 status = ''paid'', debt_note = ''''\<rparr>], id_seq = 7\<rparr>)
   \<and> payDebt ''7'' 1301 NoFault
     \<lparr>debts = [\<lparr>debt_id = 4, borrower_id = ''7'', admin_id = ''9'', amount_initial = 800,
                 amount_remaining = 800, created_at = 2000, last_interest_at = 2000,
                 status = ''open'', debt_note = ''''\<rparr>,
               \<lparr>debt_id = 5, borrower_id = ''8'', admin_id = ''9'', amount_initial = 50,
                 amount_remaining = 50, created_at = 500, last_interest_at = 500,
                 status = ''open'', debt_note = ''''\<rparr>,
               \<lparr>debt_id = 6, borrower_id = ''7'', admin_id = ''9'', amount_initial = 450,
                 amount_remaining = 500, created_at = 1000, last_interest_at = 1000,
                 status = ''open'', debt_note = ''''\<rparr>], id_seq = 7\<rparr>
   = payDebt ''7'' 5000 NoFault
     \<lparr>debts = [\<lparr>debt_id = 4, borrower_id = ''7'', admin_id = ''9'', amount_initial = 800,
                 amount_remaining = 800, created_at = 2000, last_interest_at = 2000,
                 status = ''open'', debt_note = ''''\<rparr>,
               \<lparr>debt_id = 5, borrower_id = ''8'', admin_id = ''9'', amount_initial = 50,
                 amount_remaining = 50, created_at = 500, last_interest_at = 500,
                 status = ''open'', debt_note = ''''\<rparr>,
               \<lparr>debt_id = 6, borrower_id = ''7'', admin_id = ''9'', amount_initial = 450,
                 amount_remaining = 500, created_at = 1000, last_interest_at = 1000,
                 status = ''open'', debt_note = ''''\<rparr>], id_seq = 7\<rparr>"
proof -
  let ?B = "\<lparr>debt_id = 4, borrower_id = ''7'', admin_id = ''9'', amount_initial = 800,
                 amount_remaining = 800, created_at = 2000, last_interest_at = 2000,
                 status = ''open'', debt_note = ''''\<rparr>"
  let ?C = "\<lparr>debt_id = 5, borrower_id = ''8'', admin_id = ''9'', amount_initial = 50,
                 amount_remaining = 50, created_at = 500, last_interest_at = 500,
                 status = ''open'', debt_note = ''''\<rparr>"
  let ?A = "\<lparr>debt_id = 6, borrower_id = ''7'', admin_id = ''9'', amount_initial = 450,
                 amount_remaining = 500, created_at = 1000, last_interest_at = 1000,
                 status = ''open'', debt_note = ''''\<rparr>"
  let ?s = "\<lparr>debts = [?B, ?C, ?A], id_seq = 7\<rparr>"
  have d: "distinct (map debt_id (debts ?s))" by simp
  have n: "\<forall>d\<in>set (debts ?s). borrower_id d = ''7'' \<and> status d = ''open'' \<longrightarrow> 0 \<le> amount_remaining d"
    by simp
  have t: "(\<Sum>d\<leftarrow>filter (\<lambda>d. borrower_id d = ''7'' \<and> status d = ''open'') (debts ?s).
            amount_remaining d) < 5000" by simp
  have t': "(\<Sum>d\<leftarrow>filter (\<lambda>d. borrower_id d = ''7'' \<and> status d = ''open'') (debts ?s).
            amount_remaining d) < 1301" by simp
  from payDebt_overpayment_discarded[OF d n t] t' show ?thesis
    by (simp add: select_open_debts_def)
qed

section \<open>Pending actions: proofs\<close>

text \<open>What the confirmation handlers do on a miss and on a hit.\<close>

lemma reaction_miss:
  "pendingActions s (reaction_message_id r) = None \<Longrightarrow> onMessageReactionAdd fl now r s = s"
  by (simp add: onMessageReactionAdd_def)

lemma reaction_hit:
  assumes "\<not> (partial r \<and> fetch_fails fl)" "user_id r = MUDAE_ID"
    and "emoji_name r = CHECKMARK \<or> emoji_name r = ''white_check_mark''"
    and "isTrackingEnabled s" "pendingActions s (reaction_message_id r) = Some a"
  shows "onMessageReactionAdd fl now r s
     = s\<lparr>ledger := snd (case action_type a of
                          LOAN \<Rightarrow> loan_block fl now (userId a) (adminId a) (amount a)
                                    ''Verified by Mudae'' (ledger s)
                        | REPAY \<Rightarrow> repay_block fl now (userId a) (amount a) (ledger s)),
         pendingActions := (pendingActions s)(reaction_message_id r := None)\<rparr>"
  using assms by (auto simp: onMessageReactionAdd_def Let_def case_prod_beta)

lemma loose_miss:
  "pendingRepayments t (channel_id msg) = None \<Longrightarrow> onMudaeMessage_loose fl now msg t = t"
  by (simp add: onMudaeMessage_loose_def)

lemma loose_hit:
  assumes "author_id msg = MUDAE_ID" "pendingRepayments t (channel_id msg) = Some p"
    and "str_includes (toLowerCase (content msg)) (toString (amount p))"
    and "str_includes (toLowerCase (content msg)) ''removed''"
  shows "onMudaeMessage_loose fl now msg t
     = t\<lparr>ledger := snd (repay_block fl now (userId p) (amount p) (ledger t)),
         pendingRepayments := (pendingRepayments t)(channel_id msg := None)\<rparr>"
  using assms by (simp add: onMudaeMessage_loose_def Let_def case_prod_beta)

lemma loose_ignore:
  assumes "pendingRepayments t (channel_id msg) = Some p"
    and "\<not> (str_includes (toLowerCase (content msg)) (toString (amount p))
           \<and> str_includes (toLowerCase (content msg)) ''removed'')"
  shows "onMudaeMessage_loose fl now msg t = t"
  using assms by (auto simp: onMudaeMessage_loose_def Let_def)

text \<open>
  \<^bold>\<open>C1\<close>. A confirmation is applied at most once. In the variant with one table, a
  check-mark reaction of the automated account on a message with a pending entry, with
  tracking on, runs the entry's block once and deletes the entry; in the loose variant a
  message of the automated account that includes the pending amount and \<^verbatim>\<open>removed\<close>
  does the same for the channel's pending repayment. In both, the same signal arriving
  again, at any time and whatever fails, finds no entry and leaves the whole state, the
  ledger included, as it is.
\<close>

theorem confirmation_applied_at_most_once:
  "(\<not> (partial r \<and> fetch_fails fl) \<and> user_id r = MUDAE_ID
      \<and> (emoji_name r = CHECKMARK \<or> emoji_name r = ''white_check_mark'')
      \<and> isTrackingEnabled s \<and> pendingActions s (reaction_message_id r) = Some a
    \<longrightarrow> pendingActions (onMessageReactionAdd fl now r s) (reaction_message_id r) = None
        \<and> ledger (onMessageReactionAdd fl now r s)
            = snd (case action_type a of
                     LOAN \<Rightarrow> loan_block fl now (userId a) (adminId a) (amount a)
                               ''Verified by Mudae'' (ledger s)
                   | REPAY \<Rightarrow> repay_block fl now (userId a) (amount a) (ledger s))
        \<and> onMessageReactionAdd fl' now' r (onMessageReactionAdd fl now r s)
            = onMessageReactionAdd fl now r s)
   \<and> (author_id msg = MUDAE_ID \<and> pendingRepayments t (channel_id msg) = Some p
      \<and> str_includes (toLowerCase (content msg)) (toString (amount p))
      \<and> str_includes (toLowerCase (content msg)) ''removed''
    \<longrightarrow> pendingRepayments (onMudaeMessage_loose fl now msg t) (channel_id msg) = None
        \<and> ledger (onMudaeMessage_loose fl now msg t)
            = snd (repay_block fl now (userId p) (amount p) (ledger t))
        \<and> onMudaeMessage_loose fl' now' msg (onMudaeMessage_loose fl now msg t)
            = onMudaeMessage_loose fl now msg t)"
proof (intro conjI impI)
  assume h: "\<not> (partial r \<and> fetch_fails fl) \<and> user_id r = MUDAE_ID
      \<and> (emoji_name r = CHECKMARK \<or> emoji_name r = ''white_check_mark'')
      \<and> isTrackingEnabled s \<and> pendingActions s (reaction_message_id r) = Some a"
  then have hit: "onMessageReactionAdd fl now r s
     = s\<lparr>ledger := snd (case action_type a of
                          LOAN \<Rightarrow> loan_block fl now (userId a) (adminId a) (amount a)
                                    ''Verified by Mudae'' (ledger s)
                        | REPAY \<Rightarrow> repay_block fl now (userId a) (amount a) (ledger s)),
         pendingActions := (pendingActions s)(reaction_message_id r := None)\<rparr>"
    by (intro reaction_hit) simp_all
  show gone: "pendingActions (onMessageReactionAdd fl now r s) (reaction_message_id r) = None"
    unfolding hit by simp
  show "ledger (onMessageReactionAdd fl now r s)
            = snd (case action_type a of
                     LOAN \<Rightarrow> loan_block fl now (userId a) (adminId a) (amount a)
                               ''Verified by Mudae'' (ledger s)
                   | REPAY \<Rightarrow> repay_block fl now (userId a) (amount a) (ledger s))"
    unfolding hit by simp
  show "onMessageReactionAdd fl' now' r (onMessageReactionAdd fl now r s)
            = onMessageReactionAdd fl now r s"
    using gone by (rule reaction_miss)
next
  assume h: "author_id msg = MUDAE_ID \<and> pendingRepayments t (channel_id msg) = Some p
      \<and> str_includes (toLowerCase (content msg)) (toString (amount p))
      \<and> str_includes (toLowerCase (content msg)) ''removed''"
  then have hit: "onMudaeMessage_loose fl now msg t
     = t\<lparr>ledger := snd (repay_block fl now (userId p) (amount p) (ledger t)),
         pendingRepayments := (pendingRepayments t)(channel_id msg := None)\<rparr>"
    by (intro loose_hit) simp_all
  show gone: "pendingRepayments (onMudaeMessage_loose fl now msg t) (channel_id msg) = None"
    unfolding hit by simp
  show "ledger (onMudaeMessage_loose fl now msg t)
            = snd (repay_block fl now (userId p) (amount p) (ledger t))"
    unfolding hit by simp
  show "onMudaeMessage_loose fl' now' msg (onMudaeMessage_loose fl now msg t)
            = onMudaeMessage_loose fl now msg t"
    using gone by (rule loose_miss)
qed

theorem confirmation_applied_at_most_once_witness:
  "onMessageReactionAdd no_faults 2000
     \<lparr>partial = False, user_id = MUDAE_ID, emoji_name = CHECKMARK, reaction_message_id = ''m1''\<rparr>
     (onMessageReactionAdd no_faults 1000
        \<lparr>partial = False, user_id = MUDAE_ID, emoji_name = CHECKMARK, reaction_message_id = ''m1''\<rparr>
        \<lparr>isTrackingEnabled = True, ledger = \<lparr>debts = [], id_seq = 1\<rparr>,
         pendingActions = [''m1'' \<mapsto> \<lparr>adminId = ''9'', userId = ''7'', amount = 500,
                                      timestamp = 0, action_type = LOAN\<rparr>]\<rparr>)
   = onMessageReactionAdd no_faults 1000
        \<lparr>partial = False, user_id = MUDAE_ID, emoji_name = CHECKMARK, reaction_message_id = ''m1''\<rparr>
        \<lparr>isTrackingEnabled = True, ledger = \<lparr>debts = [], id_seq = 1\<rparr>,
         pendingActions = [''m1'' \<mapsto> \<lparr>adminId = ''9'', userId = ''7'', amount = 500,
                                      timestamp = 0, action_type = LOAN\<rparr>]\<rparr>
   \<and> onMudaeMessage_loose no_faults 2000
       \<lparr>author_bot = True, author_id = MUDAE_ID, content = ''**100** removed'',
        message_id = ''m3'', channel_id = ''c1''\<rparr>
       (onMudaeMessage_loose no_faults 1000
          \<lparr>author_bot = True, author_id = MUDAE_ID, content = ''**100** removed'',
           message_id = ''m3'', channel_id = ''c1''\<rparr>
          \<lparr>isTrackingEnabled = True, ledger = \<lparr>debts = [], id_seq = 1\<rparr>,
           pendingLoans = Map.empty,
           pendingRepayments = [''c1'' \<mapsto> \<lparr>adminId = ''9'', userId = ''7'', amount = 100,
                                          timestamp = 0\<rparr>]\<rparr>)
   = onMudaeMessage_loose no_faults 1000
          \<lparr>author_bot = True, author_id = MUDAE_ID, content = ''**100** removed'',
           message_id = ''m3'', channel_id = ''c1''\<rparr>
          \<lparr>isTrackingEnabled = True, ledger = \<lparr>debts = [], id_seq = 1\<rparr>,
           pendingLoans = Map.empty,
           pendingRepayments = [''c1'' \<mapsto> \<lparr>adminId = ''9'', userId = ''7'', amount = 100,
                                          timestamp = 0\<rparr>]\<rparr>"
proof -
  let ?r = "\<lparr>partial = False, user_id = MUDAE_ID, emoji_name = CHECKMARK,
             reaction_message_id = ''m1''\<rparr>"
  let ?a = "\<lparr>adminId = ''9'', userId = ''7'', amount = 500, timestamp = 0, action_type = LOAN\<rparr>"
  let ?s = "\<lparr>isTrackingEnabled = True, ledger = \<lparr>debts = [], id_seq = 1\<rparr>,
             pendingActions = [''m1'' \<mapsto> ?a]\<rparr>"
  let ?m = "\<lparr>author_bot = True, author_id = MUDAE_ID, content = ''**100** removed'',
             message_id = ''m3'', channel_id = ''c1''\<rparr>"
  let ?p = "\<lparr>adminId = ''9'', userId = ''7'', amount = 100, timestamp = 0\<rparr>"
  let ?t = "\<lparr>isTrackingEnabled = True, ledger = \<lparr>debts = [], id_seq = 1\<rparr>,
             pendingLoans = Map.empty, pendingRepayments = [''c1'' \<mapsto> ?p]\<rparr>"
  have g1: "\<not> (partial ?r \<and> fetch_fails no_faults) \<and> user_id ?r = MUDAE_ID
      \<and> (emoji_name ?r = CHECKMARK \<or> emoji_name ?r = ''white_check_mark'')
      \<and> isTrackingEnabled ?s \<and> pendingActions ?s (reaction_message_id ?r) = Some ?a"
    by simp
  have inc: "str_includes (toLowerCase (content ?m)) (toString (amount ?p))"
    "str_includes (toLowerCase (content ?m)) ''removed''"
    by code_simp+
  have g2: "author_id ?m = MUDAE_ID \<and> pendingRepayments ?t (channel_id ?m) = Some ?p
      \<and> str_includes (toLowerCase (content ?m)) (toString (amount ?p))
      \<and> str_includes (toLowerCase (content ?m)) ''removed''"
    using inc by simp
  from g1 g2 show ?thesis
    using confirmation_applied_at_most_once[where r = ?r and fl = no_faults and s = ?s
        and a = ?a and now = 1000 and fl' = no_faults and now' = 2000 and msg = ?m
        and t = ?t and p = ?p]
    by blast
qed

lemma loan_block_threw:
  assumes "fst (loan_block fl now uid aid amt nt db) = Inl e" "e \<noteq> ReplyError"
  shows "snd (loan_block fl now uid aid amt nt db) = snd (applyInterest now (interest_fault fl) db)"
  using assms
  by (auto simp: loan_block_def logDebt_def split: prod.splits sum.splits if_splits)

text \<open>
  \<^bold>\<open>C10\<close>. When the block of a matched confirmation throws (accrual, debt creation,
  repayment or the reply), the entry is deleted all the same, and the same signal
  emitted again changes nothing: the confirmation cannot be retried. For a loan whose
  accrual or debt creation threw, the ledger is what accrual left: no debt was recorded,
  and none will be.
\<close>

theorem pending_deleted_when_block_throws:
  "(\<not> (partial r \<and> fetch_fails fl) \<and> user_id r = MUDAE_ID
      \<and> (emoji_name r = CHECKMARK \<or> emoji_name r = ''white_check_mark'')
      \<and> isTrackingEnabled s \<and> pendingActions s (reaction_message_id r) = Some a
      \<and> fst (case action_type a of
                LOAN \<Rightarrow> loan_block fl now (userId a) (adminId a) (amount a)
                          ''Verified by Mudae'' (ledger s)
              | REPAY \<Rightarrow> repay_block fl now (userId a) (amount a) (ledger s)) = Inl e
    \<longrightarrow> pendingActions (onMessageReactionAdd fl now r s) (reaction_message_id r) = None
        \<and> onMessageReactionAdd fl' now' r (onMessageReactionAdd fl now r s)
            = onMessageReactionAdd fl now r s
        \<and> (action_type a = LOAN \<and> e \<noteq> ReplyError \<longrightarrow>
             ledger (onMessageReactionAdd fl now r s)
               = snd (applyInterest now (interest_fault fl) (ledger s))))
   \<and> (author_id msg = MUDAE_ID \<and> pendingRepayments t (channel_id msg) = Some p
      \<and> str_includes (toLowerCase (content msg)) (toString (amount p))
      \<and> str_includes (toLowerCase (content msg)) ''removed''
      \<and> fst (repay_block fl now (userId p) (amount p) (ledger t)) = Inl e
    \<longrightarrow> pendingRepayments (onMudaeMessage_loose fl now msg t) (channel_id msg) = None
        \<and> onMudaeMessage_loose fl' now' msg (onMudaeMessage_loose fl now msg t)
            = onMudaeMessage_loose fl now msg t)"
proof (intro conjI impI)
  assume h: "\<not> (partial r \<and> fetch_fails fl) \<and> user_id r = MUDAE_ID
      \<and> (emoji_name r = CHECKMARK \<or> emoji_name r = ''white_check_mark'')
      \<and> isTrackingEnabled s \<and> pendingActions s (reaction_message_id r) = Some a
      \<and> fst (case action_type a of
                LOAN \<Rightarrow> loan_block fl now (userId a) (adminId a) (amount a)
                          ''Verified by Mudae'' (ledger s)
              | REPAY \<Rightarrow> repay_block fl now (userId a) (amount a) (ledger s)) = Inl e"
  then have hit: "onMessageReactionAdd fl now r s
     = s\<lparr>ledger := snd (case action_type a of
                          LOAN \<Rightarrow> loan_block fl now (userId a) (adminId a) (amount a)
                                    ''Verified by Mudae'' (ledger s)
                        | REPAY \<Rightarrow> repay_block fl now (userId a) (amount a) (ledger s)),
         pendingActions := (pendingActions s)(reaction_message_id r := None)\<rparr>"
    by (intro reaction_hit) simp_all
  show gone: "pendingActions (onMessageReactionAdd fl now r s) (reaction_message_id r) = None"
    unfolding hit by simp
  show "onMessageReactionAdd fl' now' r (onMessageReactionAdd fl now r s)
            = onMessageReactionAdd fl now r s"
    using gone by (rule reaction_miss)
  assume l: "action_type a = LOAN \<and> e \<noteq> ReplyError"
  with h have thr: "fst (loan_block fl now (userId a) (adminId a) (amount a)
                 ''Verified by Mudae'' (ledger s)) = Inl e" by simp
  from l have ne: "e \<noteq> ReplyError" by simp
  from thr ne have "snd (loan_block fl now (userId a) (adminId a) (amount a)
                 ''Verified by Mudae'' (ledger s))
               = snd (applyInterest now (interest_fault fl) (ledger s))"
    by (rule loan_block_threw)
  with l show "ledger (onMessageReactionAdd fl now r s)
               = snd (applyInterest now (interest_fault fl) (ledger s))"
    unfolding hit by simp
next
  assume h: "author_id msg = MUDAE_ID \<and> pendingRepayments t (channel_id msg) = Some p
      \<and> str_includes (toLowerCase (content msg)) (toString (amount p))
      \<and> str_includes (toLowerCase (content msg)) ''removed''
      \<and> fst (repay_block fl now (userId p) (amount p) (ledger t)) = Inl e"
  then have hit: "onMudaeMessage_loose fl now msg t
     = t\<lparr>ledger := snd (repay_block fl now (userId p) (amount p) (ledger t)),
         pendingRepayments := (pendingRepayments t)(channel_id msg := None)\<rparr>"
    by (intro loose_hit) simp_all
  show gone: "pendingRepayments (onMudaeMessage_loose fl now msg t) (channel_id msg) = None"
    unfolding hit by simp
  show "onMudaeMessage_loose fl' now' msg (onMudaeMessage_loose fl now msg t)
            = onMudaeMessage_loose fl now msg t"
    using gone by (rule loose_miss)
qed

theorem pending_deleted_when_block_throws_witness:
  "pendingActions
     (onMessageReactionAdd
        \<lparr>fetch_fails = False, interest_fault = NoFault, ledger_fault = ConnectFails,
         reply_fails = False\<rparr> 1000
        \<lparr>partial = False, user_id = MUDAE_ID, emoji_name = CHECKMARK, reaction_message_id = ''m1''\<rparr>
        \<lparr>isTrackingEnabled = True, ledger = \<lparr>debts = [], id_seq = 1\<rparr>,
         pendingActions = [''m1'' \<mapsto> \<lparr>adminId = ''9'', userId = ''7'', amount = 500,
                                      timestamp = 0, action_type = LOAN\<rparr>]\<rparr>) ''m1'' = None
   \<and> ledger
     (onMessageReactionAdd no_faults 2000
        \<lparr>partial = False, user_id = MUDAE_ID, emoji_name = CHECKMARK, reaction_message_id = ''m1''\<rparr>
        (onMessageReactionAdd
           \<lparr>fetch_fails = False, interest_fault = NoFault, ledger_fault = ConnectFails,
            reply_fails = False\<rparr> 1000
           \<lparr>partial = False, user_id = MUDAE_ID, emoji_name = CHECKMARK,
            reaction_message_id = ''m1''\<rparr>
           \<lparr>isTrackingEnabled = True, ledger = \<lparr>debts = [], id_seq = 1\<rparr>,
            pendingActions = [''m1'' \<mapsto> \<lparr>adminId = ''9'', userId = ''7'', amount = 500,
                                         timestamp = 0, action_type = LOAN\<rparr>]\<rparr>))
     = \<lparr>debts = [], id_seq = 1\<rparr>"
proof -
  let ?fl = "\<lparr>fetch_fails = False, interest_fault = NoFault, ledger_fault = ConnectFails,
              reply_fails = False\<rparr>"
  let ?r = "\<lparr>partial = False, user_id = MUDAE_ID, emoji_name = CHECKMARK,
             reaction_message_id = ''m1''\<rparr>"
  let ?a = "\<lparr>adminId = ''9'', userId = ''7'', amount = 500, timestamp = 0, action_type = LOAN\<rparr>"
  let ?s = "\<lparr>isTrackingEnabled = True, ledger = \<lparr>debts = [], id_seq = 1\<rparr>,
             pendingActions = [''m1'' \<mapsto> ?a]\<rparr>"
  have g: "\<not> (partial ?r \<and> fetch_fails ?fl) \<and> user_id ?r = MUDAE_ID
      \<and> (emoji_name ?r = CHECKMARK \<or> emoji_name ?r = ''white_check_mark'')
      \<and> isTrackingEnabled ?s \<and> pendingActions ?s (reaction_message_id ?r) = Some ?a
      \<and> fst (case action_type ?a of
                LOAN \<Rightarrow> loan_block ?fl 1000 (userId ?a) (adminId ?a) (amount ?a)
                          ''Verified by Mudae'' (ledger ?s)
              | REPAY \<Rightarrow> repay_block ?fl 1000 (userId ?a) (amount ?a) (ledger ?s))
          = Inl ConnectionError"
    by (simp add: loan_block_def applyInterest_def logDebt_def query_fails_def)
  have l: "action_type ?a = LOAN \<and> ConnectionError \<noteq> ReplyError" by simp
  have i: "snd (applyInterest 1000 (interest_fault ?fl) (ledger ?s)) = \<lparr>debts = [], id_seq = 1\<rparr>"
    by (simp add: applyInterest_def query_fails_def)
  note T = pending_deleted_when_block_throws[where r = ?r and fl = ?fl and s = ?s and a = ?a
        and now = 1000 and e = ConnectionError and fl' = no_faults and now' = 2000,
        THEN conjunct1, THEN mp, OF g]
  from T l have "ledger (onMessageReactionAdd ?fl 1000 ?r ?s)
      = snd (applyInterest 1000 (interest_fault ?fl) (ledger ?s))" by blast
  with T i show ?thesis by simp
qed

lemma onMessageCreate_ledger: "ledger (onMessageCreate A now msg s) = ledger s"
  by (simp add: onMessageCreate_def split: option.splits prod.splits)

lemma onMessageCreate_flag: "isTrackingEnabled (onMessageCreate A now msg s) = isTrackingEnabled s"
  by (simp add: onMessageCreate_def split: option.splits prod.splits)

lemma onAdminMessage_ledger: "ledger (onAdminMessage A now msg t) = ledger t"
  by (simp add: onAdminMessage_def split: option.splits prod.splits)

lemma onMessageCreate_loan:
  assumes "\<not> author_bot msg" "author_id msg \<in> set A" "isTrackingEnabled s"
    and "\<not> str_includes (toLowerCase (content msg)) ''#exempt''"
    and "giveRegex (content msg) = Some (g2, g3)"
  shows "onMessageCreate A now msg s
     = s\<lparr>pendingActions := (pendingActions s)(message_id msg \<mapsto>
           \<lparr>adminId = author_id msg, userId = g2, amount = parseInt g3, timestamp = now,
            action_type = LOAN\<rparr>)\<rparr>"
  using assms by (simp add: onMessageCreate_def)

lemma onMessageCreate_repay:
  assumes "\<not> author_bot msg" "author_id msg \<in> set A" "isTrackingEnabled s"
    and "\<not> str_includes (toLowerCase (content msg)) ''#exempt''"
    and "giveRegex (content msg) = None" "takeRegex (content msg) = Some (g2, g3)"
  shows "onMessageCreate A now msg s
     = s\<lparr>pendingActions := (pendingActions s)(message_id msg \<mapsto>
           \<lparr>adminId = author_id msg, userId = g2, amount = parseInt g3, timestamp = now,
            action_type = REPAY\<rparr>)\<rparr>"
  using assms by (simp add: onMessageCreate_def)

text \<open>
  \<^bold>\<open>C2\<close>, for the variants that keep pending entries. Whatever the message, the
  trigger listener leaves the ledger as it is: every debt row and the id sequence. When
  the message is an administrator's trigger, with tracking on and no exemption mark, all
  it does is store the pending entry.
\<close>

theorem trigger_writes_no_ledger:
  "ledger (onMessageCreate A now msg s) = ledger s
   \<and> ledger (onAdminMessage A now msg t) = ledger t
   \<and> (\<not> author_bot msg \<and> author_id msg \<in> set A \<and> isTrackingEnabled s
       \<and> \<not> str_includes (toLowerCase (content msg)) ''#exempt''
       \<and> giveRegex (content msg) = Some (g2, g3)
      \<longrightarrow> onMessageCreate A now msg s
          = s\<lparr>pendingActions := (pendingActions s)(message_id msg \<mapsto>
                \<lparr>adminId = author_id msg, userId = g2, amount = parseInt g3, timestamp = now,
                 action_type = LOAN\<rparr>)\<rparr>)
   \<and> (\<not> author_bot msg \<and> author_id msg \<in> set A \<and> isTrackingEnabled s
       \<and> \<not> str_includes (toLowerCase (content msg)) ''#exempt''
       \<and> giveRegex (content msg) = None \<and> takeRegex (content msg) = Some (g2, g3)
      \<longrightarrow> onMessageCreate A now msg s
          = s\<lparr>pendingActions := (pendingActions s)(message_id msg \<mapsto>
                \<lparr>adminId = author_id msg, userId = g2, amount = parseInt g3, timestamp = now,
                 action_type = REPAY\<rparr>)\<rparr>)"
  using onMessageCreate_ledger onAdminMessage_ledger onMessageCreate_loan onMessageCreate_repay
  by simp

theorem trigger_writes_no_ledger_witness:
  "giveRegex ''$givescrap <@7> 500'' = Some (''7'', ''500'')
   \<and> onMessageCreate [''9''] 1000
       \<lparr>author_bot = False, author_id = ''9'', content = ''$givescrap <@7> 500'',
        message_id = ''m1'', channel_id = ''c1''\<rparr>
       \<lparr>isTrackingEnabled = True, ledger = \<lparr>debts = [], id_seq = 1\<rparr>,
        pendingActions = Map.empty\<rparr>
     = \<lparr>isTrackingEnabled = True, ledger = \<lparr>debts = [], id_seq = 1\<rparr>,
        pendingActions = [''m1'' \<mapsto> \<lparr>adminId = ''9'', userId = ''7'', amount = 500,
                                     timestamp = 1000, action_type = LOAN\<rparr>]\<rparr>"
proof -
  let ?m = "\<lparr>author_bot = False, author_id = ''9'', content = ''$givescrap <@7> 500'',
             message_id = ''m1'', channel_id = ''c1''\<rparr>"
  let ?s = "\<lparr>isTrackingEnabled = True, ledger = \<lparr>debts = [], id_seq = 1\<rparr>,
             pendingActions = Map.empty\<rparr>"
  have m: "giveRegex ''$givescrap <@7> 500'' = Some (''7'', ''500'')" by code_simp
  have x: "\<not> str_includes (toLowerCase ''$givescrap <@7> 500'') ''#exempt''" by code_simp
  have p: "parseInt ''500'' = 500" by (simp add: parseInt_def digit_value_def)
  have g: "\<not> author_bot ?m \<and> author_id ?m \<in> set [''9''] \<and> isTrackingEnabled ?s
       \<and> \<not> str_includes (toLowerCase (content ?m)) ''#exempt''
       \<and> giveRegex (content ?m) = Some (''7'', ''500'')"
    using m x by simp
  from g m p show ?thesis
    using trigger_writes_no_ledger[where A = "[''9'']" and now = 1000 and msg = ?m and s = ?s
        and ?g2.0 = "''7''" and ?g3.0 = "''500''"]
    by simp
qed

text \<open>
  The claim does not hold of the variant without a pending table: there the trigger
  itself writes the ledger. An administrator's \<^verbatim>\<open>$givescrap <@7> 500\<close> creates the debt
  at once.
\<close>

theorem immediate_trigger_writes_ledger_counterexample:
  "giveRegex ''$givescrap <@7> 500'' = Some (''7'', ''500'')
   \<and> onMessageCreate_immediate [''9''] no_faults 1000
       \<lparr>author_bot = False, author_id = ''9'', content = ''$givescrap <@7> 500'',
        message_id = ''m1'', channel_id = ''c1''\<rparr>
       \<lparr>debts = [], id_seq = 1\<rparr>
     = \<lparr>debts = [\<lparr>debt_id = 1, borrower_id = ''7'', admin_id = ''9'', amount_initial = 500,
                  amount_remaining = 500, created_at = 1000, last_interest_at = 1000,
                  status = ''open'', debt_note = ''Auto-detected''\<rparr>], id_seq = 2\<rparr>"
proof -
  have m: "giveRegex ''$givescrap <@7> 500'' = Some (''7'', ''500'')" by code_simp
  have x: "\<not> str_includes (toLowerCase ''$givescrap <@7> 500'') ''#exempt''" by code_simp
  have p: "parseInt ''500'' = 500" by (simp add: parseInt_def digit_value_def)
  show ?thesis using m x p
    by (simp add: onMessageCreate_immediate_def no_faults_def loan_block_def applyInterest_def
        logDebt_def query_fails_def pg_integer_def pg_varchar255_def)
qed

section \<open>The tracking flag, overwriting and the confirmation grammar: proofs\<close>

text \<open>
  With the flag off, the listeners of the variant with one table, and the trigger,
  reaction and strict message listeners of the variants with two tables, return the
  state as it is.
\<close>

lemma tracking_off_unified:
  "\<not> isTrackingEnabled s \<Longrightarrow>
     onMessageCreate A now msg s = s \<and> onMessageReactionAdd fl now r s = s"
  by (simp add: onMessageCreate_def onMessageReactionAdd_def)

lemma tracking_off_split:
  "\<not> isTrackingEnabled t \<Longrightarrow>
     onAdminMessage A now msg t = t \<and> onLoanReaction fl now r t = t
     \<and> onMudaeMessage_strict fl now msg t = t"
  by (simp add: onAdminMessage_def onLoanReaction_def onMudaeMessage_strict_def)

text \<open>
  \<^bold>\<open>C7\<close> fails in the loose variant, whose message listener never reads the flag. With
  tracking off and a repayment of 100 pending in channel \<^verbatim>\<open>c1\<close>, a message of the
  automated account with the amount and \<^verbatim>\<open>removed\<close> is honoured: the debt goes from 500
  to 400 and the entry is deleted.
\<close>

theorem loose_confirmation_ignores_tracking_flag:
  "ledger (onMudaeMessage_loose no_faults 2000
      \<lparr>author_bot = True, author_id = MUDAE_ID, content = ''**100** removed'',
       message_id = ''m3'', channel_id = ''c1''\<rparr>
      \<lparr>isTrackingEnabled = False,
       ledger = \<lparr>debts = [\<lparr>debt_id = 1, borrower_id = ''7'', admin_id = ''9'',
                            amount_initial = 500, amount_remaining = 500, created_at = 1000,
                            last_interest_at = 1000, status = ''open'', debt_note = ''''\<rparr>],
                 id_seq = 2\<rparr>,
       pendingLoans = Map.empty,
       pendingRepayments = [''c1'' \<mapsto> \<lparr>adminId = ''9'', userId = ''7'', amount = 100,
                                      timestamp = 1500\<rparr>]\<rparr>)
   = \<lparr>debts = [\<lparr>debt_id = 1, borrower_id = ''7'', admin_id = ''9'',
                  amount_initial = 500, amount_remaining = 400, created_at = 1000,
                  last_interest_at = 1000, status = ''open'', debt_note = ''''\<rparr>],
       id_seq = 2\<rparr>
   \<and> pendingRepayments (onMudaeMessage_loose no_faults 2000
      \<lparr>author_bot = True, author_id = MUDAE_ID, content = ''**100** removed'',
       message_id = ''m3'', channel_id = ''c1''\<rparr>
      \<lparr>isTrackingEnabled = False,
       ledger = \<lparr>debts = [\<lparr>debt_id = 1, borrower_id = ''7'', admin_id = ''9'',
                            amount_initial = 500, amount_remaining = 500, created_at = 1000,
                            last_interest_at = 1000, status = ''open'', debt_note = ''''\<rparr>],
                 id_seq = 2\<rparr>,
       pendingLoans = Map.empty,
       pendingRepayments = [''c1'' \<mapsto> \<lparr>adminId = ''9'', userId = ''7'', amount = 100,
                                      timestamp = 1500\<rparr>]\<rparr>) ''c1'' = None"
proof -
  have inc: "str_includes (toLowerCase ''**100** removed'') (toString 100)"
    "str_includes (toLowerCase ''**100** removed'') ''removed''"
    by code_simp+
  have w: "weeksPassed 2000 \<lparr>debt_id = 1, borrower_id = ''7'', admin_id = ''9'',
                            amount_initial = 500, amount_remaining = 500, created_at = 1000,
                            last_interest_at = 1000, status = ''open'', debt_note = ''''\<rparr> = 0"
    by (simp add: weeksPassed_def MS_PER_DAY_def)
  show ?thesis using inc w
    by (simp add: onMudaeMessage_loose_def no_faults_def repay_block_def applyInterest_def
        payDebt_def select_open_debts_def query_fails_def pg_integer_def update_remaining_def)
qed

lemma onMessageCreate_overwrite:
  assumes "message_id m1 = message_id m2" "isTrackingEnabled s"
    and "\<not> author_bot m2" "author_id m2 \<in> set A"
    and "\<not> str_includes (toLowerCase (content m2)) ''#exempt''"
    and "giveRegex (content m2) \<noteq> None \<or> takeRegex (content m2) \<noteq> None"
  shows "onMessageCreate A t2 m2 (onMessageCreate A t1 m1 s) = onMessageCreate A t2 m2 s"
proof -
  have "onMessageCreate A t1 m1 s = s
        \<or> (\<exists>a. onMessageCreate A t1 m1 s
                  = s\<lparr>pendingActions := (pendingActions s)(message_id m1 \<mapsto> a)\<rparr>)"
    by (auto simp: onMessageCreate_def split: option.splits)
  then show ?thesis
  proof
    assume "onMessageCreate A t1 m1 s = s"
    then show ?thesis by simp
  next
    assume "\<exists>a. onMessageCreate A t1 m1 s
                  = s\<lparr>pendingActions := (pendingActions s)(message_id m1 \<mapsto> a)\<rparr>"
    then obtain a where a: "onMessageCreate A t1 m1 s
                  = s\<lparr>pendingActions := (pendingActions s)(message_id m1 \<mapsto> a)\<rparr>" by blast
    show ?thesis unfolding a using assms
      by (auto simp: onMessageCreate_def split: option.splits)
  qed
qed

lemma loan_block_no_faults:
  assumes "pg_integer amt" "pg_varchar255 uid" "pg_varchar255 aid"
  shows "debts (snd (loan_block no_faults now uid aid amt nt db))
     = debts (snd (applyInterest now NoFault db)) @
       [\<lparr>debt_id = id_seq db, borrower_id = uid, admin_id = aid, amount_initial = amt,
         amount_remaining = amt, created_at = now, last_interest_at = now,
         status = ''open'', debt_note = nt\<rparr>]"
  using assms
  by (simp add: loan_block_def no_faults_def applyInterest_def logDebt_def query_fails_def)

text \<open>
  \<^bold>\<open>C8\<close>. The pending table is a map, so a key holds one entry at most. Two triggers
  of an administrator under one message identity, with tracking on: the first registers
  an entry, and the state after the second is the state the second alone would have
  left, ledger untouched. A check-mark reaction of the automated account on that message
  then applies the second trigger only: a loan of its amount (with no fault and values
  the columns accept, accrual and then one new debt of that amount) or a repayment of
  its amount, and the entry is gone.
\<close>

theorem second_trigger_overwrites_first:
  assumes "message_id m1 = message_id m2" and "isTrackingEnabled s"
    and "\<not> author_bot m1" and "author_id m1 \<in> set A"
    and "\<not> str_includes (toLowerCase (content m1)) ''#exempt''"
    and "giveRegex (content m1) \<noteq> None \<or> takeRegex (content m1) \<noteq> None"
    and "\<not> author_bot m2" and "author_id m2 \<in> set A"
    and "\<not> str_includes (toLowerCase (content m2)) ''#exempt''"
    and "giveRegex (content m2) \<noteq> None \<or> takeRegex (content m2) \<noteq> None"
    and "\<not> (partial r \<and> fetch_fails fl)" and "user_id r = MUDAE_ID"
    and "emoji_name r = CHECKMARK \<or> emoji_name r = ''white_check_mark''"
    and "reaction_message_id r = message_id m2"
  shows "pendingActions (onMessageCreate A t1 m1 s) (message_id m1) \<noteq> None
    \<and> onMessageCreate A t2 m2 (onMessageCreate A t1 m1 s) = onMessageCreate A t2 m2 s
    \<and> ledger (onMessageCreate A t2 m2 (onMessageCreate A t1 m1 s)) = ledger s
    \<and> pendingActions (onMessageReactionAdd fl now r
                 (onMessageCreate A t2 m2 (onMessageCreate A t1 m1 s))) (message_id m2) = None
    \<and> (giveRegex (content m2) = Some (g2, g3) \<longrightarrow>
         pendingActions (onMessageCreate A t2 m2 (onMessageCreate A t1 m1 s)) (message_id m2)
           = Some \<lparr>adminId = author_id m2, userId = g2, amount = parseInt g3, timestamp = t2,
                   action_type = LOAN\<rparr>
         \<and> ledger (onMessageReactionAdd fl now r
                     (onMessageCreate A t2 m2 (onMessageCreate A t1 m1 s)))
           = snd (loan_block fl now g2 (author_id m2) (parseInt g3) ''Verified by Mudae''
                    (ledger s))
         \<and> (pg_integer (parseInt g3) \<and> pg_varchar255 g2 \<and> pg_varchar255 (author_id m2) \<longrightarrow>
              debts (snd (loan_block no_faults now g2 (author_id m2) (parseInt g3)
                            ''Verified by Mudae'' (ledger s)))
              = debts (snd (applyInterest now NoFault (ledger s))) @
                [\<lparr>debt_id = id_seq (ledger s), borrower_id = g2, admin_id = author_id m2,
                  amount_initial = parseInt g3, amount_remaining = parseInt g3,
                  created_at = now, last_interest_at = now, status = ''open'',
                  debt_note = ''Verified by Mudae''\<rparr>]))
    \<and> (giveRegex (content m2) = None \<and> takeRegex (content m2) = Some (g2, g3) \<longrightarrow>
         pendingActions (onMessageCreate A t2 m2 (onMessageCreate A t1 m1 s)) (message_id m2)
           = Some \<lparr>adminId = author_id m2, userId = g2, amount = parseInt g3, timestamp = t2,
                   action_type = REPAY\<rparr>
         \<and> ledger (onMessageReactionAdd fl now r
                     (onMessageCreate A t2 m2 (onMessageCreate A t1 m1 s)))
           = snd (repay_block fl now g2 (parseInt g3) (ledger s)))"
proof -
  let ?s2 = "onMessageCreate A t2 m2 (onMessageCreate A t1 m1 s)"
  have first: "pendingActions (onMessageCreate A t1 m1 s) (message_id m1) \<noteq> None"
    using assms(2,3,4,5,6) by (auto simp: onMessageCreate_def split: option.splits)
  have over: "?s2 = onMessageCreate A t2 m2 s"
    using assms(1,2,7,8,9,10) by (rule onMessageCreate_overwrite)
  have led: "ledger ?s2 = ledger s"
    unfolding over by (rule onMessageCreate_ledger)
  have track: "isTrackingEnabled ?s2"
    unfolding over using assms(2) by (simp add: onMessageCreate_flag)
  have some: "pendingActions ?s2 (reaction_message_id r) \<noteq> None"
    unfolding over using assms(2,7,8,9,10,14)
    by (auto simp: onMessageCreate_def split: option.splits)
  then obtain a where a: "pendingActions ?s2 (reaction_message_id r) = Some a" by blast
  have gone: "pendingActions (onMessageReactionAdd fl now r ?s2) (message_id m2) = None"
    using reaction_hit[OF assms(11,12,13) track a, of now] assms(14) by simp
  have loan: "pendingActions ?s2 (message_id m2)
           = Some \<lparr>adminId = author_id m2, userId = g2, amount = parseInt g3, timestamp = t2,
                   action_type = LOAN\<rparr>
         \<and> ledger (onMessageReactionAdd fl now r ?s2)
           = snd (loan_block fl now g2 (author_id m2) (parseInt g3) ''Verified by Mudae''
                    (ledger s))"
    if g: "giveRegex (content m2) = Some (g2, g3)"
  proof -
    have reg: "onMessageCreate A t2 m2 s
      = s\<lparr>pendingActions := (pendingActions s)(message_id m2 \<mapsto>
           \<lparr>adminId = author_id m2, userId = g2, amount = parseInt g3, timestamp = t2,
            action_type = LOAN\<rparr>)\<rparr>"
      using assms(7,8,2,9) g by (rule onMessageCreate_loan)
    have p: "pendingActions ?s2 (reaction_message_id r)
           = Some \<lparr>adminId = author_id m2, userId = g2, amount = parseInt g3, timestamp = t2,
                   action_type = LOAN\<rparr>"
      unfolding over reg using assms(14) by simp
    show ?thesis
      using reaction_hit[OF assms(11,12,13) track p, of now] p assms(14) led by simp
  qed
  have repay: "pendingActions ?s2 (message_id m2)
           = Some \<lparr>adminId = author_id m2, userId = g2, amount = parseInt g3, timestamp = t2,
                   action_type = REPAY\<rparr>
         \<and> ledger (onMessageReactionAdd fl now r ?s2)
           = snd (repay_block fl now g2 (parseInt g3) (ledger s))"
    if g: "giveRegex (content m2) = None" "takeRegex (content m2) = Some (g2, g3)"
  proof -
    have reg: "onMessageCreate A t2 m2 s
      = s\<lparr>pendingActions := (pendingActions s)(message_id m2 \<mapsto>
           \<lparr>adminId = author_id m2, userId = g2, amount = parseInt g3, timestamp = t2,
            action_type = REPAY\<rparr>)\<rparr>"
      using assms(7,8,2,9) g by (rule onMessageCreate_repay)
    have p: "pendingActions ?s2 (reaction_message_id r)
           = Some \<lparr>adminId = author_id m2, userId = g2, amount = parseInt g3, timestamp = t2,
                   action_type = REPAY\<rparr>"
      unfolding over reg using assms(14) by simp
    show ?thesis
      using reaction_hit[OF assms(11,12,13) track p, of now] p assms(14) led by simp
  qed
  show ?thesis
    using first over led gone loan repay loan_block_no_faults[of "parseInt g3" g2 "author_id m2"]
    by blast
qed

theorem second_trigger_overwrites_first_witness:
  "ledger (onMessageReactionAdd no_faults 3000
      \<lparr>partial = False, user_id = MUDAE_ID, emoji_name = CHECKMARK, reaction_message_id = ''m1''\<rparr>
      (onMessageCreate [''9''] 2000
         \<lparr>author_bot = False, author_id = ''9'', content = ''$givescrap <@7> 300'',
          message_id = ''m1'', channel_id = ''c1''\<rparr>
         (onMessageCreate [''9''] 1000
            \<lparr>author_bot = False, author_id = ''9'', content = ''$givescrap <@7> 500'',
             message_id = ''m1'', channel_id = ''c1''\<rparr>
            \<lparr>isTrackingEnabled = True, ledger = \<lparr>debts = [], id_seq = 1\<rparr>,
             pendingActions = Map.empty\<rparr>)))
   = \<lparr>debts = [\<lparr>debt_id = 1, borrower_id = ''7'', admin_id = ''9'', amount_initial = 300,
                  amount_remaining = 300, created_at = 3000, last_interest_at = 3000,
                  status = ''open'', debt_note = ''Verified by Mudae''\<rparr>], id_seq = 2\<rparr>"
proof -
  let ?r = "\<lparr>partial = False, user_id = MUDAE_ID, emoji_name = CHECKMARK,
             reaction_message_id = ''m1''\<rparr>"
  let ?m1 = "\<lparr>author_bot = False, author_id = ''9'', content = ''$givescrap <@7> 500'',
              message_id = ''m1'', channel_id = ''c1''\<rparr>"
  let ?m2 = "\<lparr>author_bot = False, author_id = ''9'', content = ''$givescrap <@7> 300'',
              message_id = ''m1'', channel_id = ''c1''\<rparr>"
  let ?s = "\<lparr>isTrackingEnabled = True, ledger = \<lparr>debts = [], id_seq = 1\<rparr>,
             pendingActions = Map.empty\<rparr>"
  have g1: "giveRegex ''$givescrap <@7> 500'' = Some (''7'', ''500'')" by code_simp
  have g2: "giveRegex ''$givescrap <@7> 300'' = Some (''7'', ''300'')" by code_simp
  have x1: "\<not> str_includes (toLowerCase ''$givescrap <@7> 500'') ''#exempt''" by code_simp
  have x2: "\<not> str_includes (toLowerCase ''$givescrap <@7> 300'') ''#exempt''" by code_simp
  have p: "parseInt ''300'' = 300" by (simp add: parseInt_def digit_value_def)
  have a1: "message_id ?m1 = message_id ?m2" and a2: "isTrackingEnabled ?s"
    and a3: "\<not> author_bot ?m1" and a4: "author_id ?m1 \<in> set [''9'']"
    and a7: "\<not> author_bot ?m2" and a8: "author_id ?m2 \<in> set [''9'']"
    and a11: "\<not> (partial ?r \<and> fetch_fails no_faults)" and a12: "user_id ?r = MUDAE_ID"
    and a13: "emoji_name ?r = CHECKMARK \<or> emoji_name ?r = ''white_check_mark''"
    and a14: "reaction_message_id ?r = message_id ?m2"
    by simp_all
  have a5: "\<not> str_includes (toLowerCase (content ?m1)) ''#exempt''" using x1 by simp
  have a9: "\<not> str_includes (toLowerCase (content ?m2)) ''#exempt''" using x2 by simp
  have a6: "giveRegex (content ?m1) \<noteq> None \<or> takeRegex (content ?m1) \<noteq> None"
    using g1 by simp
  have a10: "giveRegex (content ?m2) \<noteq> None \<or> takeRegex (content ?m2) \<noteq> None"
    using g2 by simp
  have g2': "giveRegex (content ?m2) = Some (''7'', ''300'')" using g2 by simp
  from second_trigger_overwrites_first[OF a1 a2 a3 a4 a5 a6 a7 a8 a9 a10 a11 a12 a13 a14,
      of 1000 2000 3000 "''7''" "''300''"] g2'
  have "ledger (onMessageReactionAdd no_faults 3000 ?r
                     (onMessageCreate [''9''] 2000 ?m2 (onMessageCreate [''9''] 1000 ?m1 ?s)))
           = snd (loan_block no_faults 3000 ''7'' (author_id ?m2) (parseInt ''300'')
                    ''Verified by Mudae'' (ledger ?s))"
    by blast
  then have T: "ledger (onMessageReactionAdd no_faults 3000 ?r
                     (onMessageCreate [''9''] 2000 ?m2 (onMessageCreate [''9''] 1000 ?m1 ?s)))
           = snd (loan_block no_faults 3000 ''7'' ''9'' (parseInt ''300'')
                    ''Verified by Mudae'' \<lparr>debts = [], id_seq = 1\<rparr>)"
    by simp
  show ?thesis unfolding T using p
    by (simp add: no_faults_def loan_block_def applyInterest_def logDebt_def query_fails_def
        pg_integer_def pg_varchar255_def)
qed

text \<open>
  The strict listener compares the number of the message with the pending amount: any
  other message leaves the state as it is, and a matching one runs the repayment and,
  unless that threw, deletes the entry.
\<close>

lemma strict_ignore:
  assumes "pendingRepayments t (channel_id msg) = Some p"
    and "\<not> (isTrackingEnabled t \<and>
            (\<exists>g1. mudaeRegex (content msg) = Some g1 \<and> filter (\<lambda>c. c \<noteq> CHR '','') g1 \<noteq> []
                  \<and> parseInt (filter (\<lambda>c. c \<noteq> CHR '','') g1) = amount p))"
  shows "onMudaeMessage_strict fl now msg t = t"
  using assms by (auto simp: onMudaeMessage_strict_def Let_def split: option.splits)

lemma strict_hit:
  assumes "author_id msg = MUDAE_ID" "isTrackingEnabled t"
    and "pendingRepayments t (channel_id msg) = Some p"
    and "mudaeRegex (content msg) = Some g1" "filter (\<lambda>c. c \<noteq> CHR '','') g1 \<noteq> []"
    and "parseInt (filter (\<lambda>c. c \<noteq> CHR '','') g1) = amount p"
  shows "onMudaeMessage_strict fl now msg t
     = (case fst (repay_block fl now (userId p) (amount p) (ledger t)) of
          Inl e \<Rightarrow> t\<lparr>ledger := snd (repay_block fl now (userId p) (amount p) (ledger t))\<rparr>
        | Inr u \<Rightarrow> t\<lparr>ledger := snd (repay_block fl now (userId p) (amount p) (ledger t)),
                     pendingRepayments := (pendingRepayments t)(channel_id msg := None)\<rparr>)"
  using assms
  by (simp add: onMudaeMessage_strict_def Let_def split: prod.splits sum.splits)

text \<open>
  \<^bold>\<open>C9\<close> fails in the loose variant, whose listener tests whether the text includes the
  digits of the pending amount, not whether the number in the text is that amount. With
  100 pending, a message about 1000 is honoured: 100 is repaid and the entry is deleted.
  The strict listener, given the same message and state, changes nothing.
\<close>

theorem loose_confirmation_accepts_other_amount:
  "mudaeRegex ''**1000** removed (added to $)'' = Some ''1000''
   \<and> parseInt ''1000'' = 1000
   \<and> ledger (onMudaeMessage_loose no_faults 2000
      \<lparr>author_bot = True, author_id = MUDAE_ID, content = ''**1000** removed (added to $)'',
       message_id = ''m3'', channel_id = ''c1''\<rparr>
      \<lparr>isTrackingEnabled = True,
       ledger = \<lparr>debts = [\<lparr>debt_id = 1, borrower_id = ''7'', admin_id = ''9'',
                            amount_initial = 500, amount_remaining = 500, created_at = 1000,
                            last_interest_at = 1000, status = ''open'', debt_note = ''''\<rparr>],
                 id_seq = 2\<rparr>,
       pendingLoans = Map.empty,
       pendingRepayments = [''c1'' \<mapsto> \<lparr>adminId = ''9'', userId = ''7'', amount = 100,
                                      timestamp = 1500\<rparr>]\<rparr>)
     = \<lparr>debts = [\<lparr>debt_id = 1, borrower_id = ''7'', admin_id = ''9'',
                    amount_initial = 500, amount_remaining = 400, created_at = 1000,
                    last_interest_at = 1000, status = ''open'', debt_note = ''''\<rparr>],
         id_seq = 2\<rparr>
   \<and> pendingRepayments (onMudaeMessage_loose no_faults 2000
      \<lparr>author_bot = True, author_id = MUDAE_ID, content = ''**1000** removed (added to $)'',
       message_id = ''m3'', channel_id = ''c1''\<rparr>
      \<lparr>isTrackingEnabled = True,
       ledger = \<lparr>debts = [\<lparr>debt_id = 1, borrower_id = ''7'', admin_id = ''9'',
                            amount_initial = 500, amount_remaining = 500, created_at = 1000,
                            last_interest_at = 1000, status = ''open'', debt_note = ''''\<rparr>],
                 id_seq = 2\<rparr>,
       pendingLoans = Map.empty,
       pendingRepayments = [''c1'' \<mapsto> \<lparr>adminId = ''9'', userId = ''7'', amount = 100,
                                      timestamp = 1500\<rparr>]\<rparr>) ''c1'' = None
   \<and> onMudaeMessage_strict no_faults 2000
      \<lparr>author_bot = True, author_id = MUDAE_ID, content = ''**1000** removed (added to $)'',
       message_id = ''m3'', channel_id = ''c1''\<rparr>
      \<lparr>isTrackingEnabled = True,
       ledger = \<lparr>debts = [\<lparr>debt_id = 1, borrower_id = ''7'', admin_id = ''9'',
                            amount_initial = 500, amount_remaining = 500, created_at = 1000,
                            last_interest_at = 1000, status = ''open'', debt_note = ''''\<rparr>],
                 id_seq = 2\<rparr>,
       pendingLoans = Map.empty,
       pendingRepayments = [''c1'' \<mapsto> \<lparr>adminId = ''9'', userId = ''7'', amount = 100,
                                      timestamp = 1500\<rparr>]\<rparr>
     = \<lparr>isTrackingEnabled = True,
       ledger = \<lparr>debts = [\<lparr>debt_id = 1, borrower_id = ''7'', admin_id = ''9'',
                            amount_initial = 500, amount_remaining = 500, created_at = 1000,
                            last_interest_at = 1000, status = ''open'', debt_note = ''''\<rparr>],
                 id_seq = 2\<rparr>,
       pendingLoans = Map.empty,
       pendingRepayments = [''c1'' \<mapsto> \<lparr>adminId = ''9'', userId = ''7'', amount = 100,
                                      timestamp = 1500\<rparr>]\<rparr>"
proof -
  let ?m = "\<lparr>author_bot = True, author_id = MUDAE_ID,
             content = ''**1000** removed (added to $)'',
             message_id = ''m3'', channel_id = ''c1''\<rparr>"
  let ?p = "\<lparr>adminId = ''9'', userId = ''7'', amount = 100, timestamp = 1500\<rparr>"
  let ?t = "\<lparr>isTrackingEnabled = True,
       ledger = \<lparr>debts = [\<lparr>debt_id = 1, borrower_id = ''7'', admin_id = ''9'',
                            amount_initial = 500, amount_remaining = 500, created_at = 1000,
                            last_interest_at = 1000, status = ''open'', debt_note = ''''\<rparr>],
                 id_seq = 2\<rparr>,
       pendingLoans = Map.empty, pendingRepayments = [''c1'' \<mapsto> ?p]\<rparr>"
  have re: "mudaeRegex ''**1000** removed (added to $)'' = Some ''1000''" by code_simp
  have pi: "parseInt ''1000'' = 1000" by (simp add: parseInt_def digit_value_def)
  have inc: "str_includes (toLowerCase ''**1000** removed (added to $)'') (toString 100)"
    "str_includes (toLowerCase ''**1000** removed (added to $)'') ''removed''"
    by code_simp+
  have w: "weeksPassed 2000 \<lparr>debt_id = 1, borrower_id = ''7'', admin_id = ''9'',
                            amount_initial = 500, amount_remaining = 500, created_at = 1000,
                            last_interest_at = 1000, status = ''open'', debt_note = ''''\<rparr> = 0"
    by (simp add: weeksPassed_def MS_PER_DAY_def)
  have loose: "ledger (onMudaeMessage_loose no_faults 2000 ?m ?t)
     = \<lparr>debts = [\<lparr>debt_id = 1, borrower_id = ''7'', admin_id = ''9'',
                    amount_initial = 500, amount_remaining = 400, created_at = 1000,
                    last_interest_at = 1000, status = ''open'', debt_note = ''''\<rparr>],
         id_seq = 2\<rparr>
     \<and> pendingRepayments (onMudaeMessage_loose no_faults 2000 ?m ?t) ''c1'' = None"
    using inc w
    by (simp add: onMudaeMessage_loose_def no_faults_def repay_block_def applyInterest_def
        payDebt_def select_open_debts_def query_fails_def pg_integer_def update_remaining_def)
  have "pendingRepayments ?t (channel_id ?m) = Some ?p" by simp
  moreover have "\<not> (isTrackingEnabled ?t \<and>
            (\<exists>g1. mudaeRegex (content ?m) = Some g1 \<and> filter (\<lambda>c. c \<noteq> CHR '','') g1 \<noteq> []
                  \<and> parseInt (filter (\<lambda>c. c \<noteq> CHR '','') g1) = amount ?p))"
    using re pi by simp
  ultimately have strict: "onMudaeMessage_strict no_faults 2000 ?m ?t = ?t"
    by (rule strict_ignore)
  from re pi loose strict show ?thesis by (intro conjI) blast+
qed

end
